theory Spec2Isabelle
  imports Complex_Main
begin

section \<open>Floating-point values\<close>

text \<open>
  The samples, gains and loudness values of the program are numpy float64 values.  The
  model keeps the three special values of IEEE arithmetic apart from the finite ones,
  because the program's behaviour on silence is decided by them (a division by zero gives
  an infinity, infinity times zero gives a NaN, the logarithm of zero is minus infinity).
  Finite values are exact reals: rounding, overflow and the sign of zero are not
  modelled.
\<close>

datatype fl = NaN | NInf | Fin real | PInf

definition isnan :: "fl \<Rightarrow> bool" where
  "isnan x = (x = NaN)"

definition isinf :: "fl \<Rightarrow> bool" where
  "isinf x = (x = PInf \<or> x = NInf)"

text \<open>Arithmetic: a NaN operand gives NaN; the other special cases are written out.\<close>

fun fneg :: "fl \<Rightarrow> fl" where
  "fneg NaN = NaN"
| "fneg NInf = PInf"
| "fneg (Fin a) = Fin (- a)"
| "fneg PInf = NInf"

fun fabs :: "fl \<Rightarrow> fl" where
  "fabs NaN = NaN"
| "fabs NInf = PInf"
| "fabs (Fin a) = Fin \<bar>a\<bar>"
| "fabs PInf = PInf"

fun fadd :: "fl \<Rightarrow> fl \<Rightarrow> fl" where
  "fadd (Fin a) (Fin b) = Fin (a + b)"
| "fadd NaN y = NaN"
| "fadd x NaN = NaN"
| "fadd PInf NInf = NaN"
| "fadd NInf PInf = NaN"
| "fadd PInf y = PInf"
| "fadd x PInf = PInf"
| "fadd NInf y = NInf"
| "fadd x NInf = NInf"

definition fsub :: "fl \<Rightarrow> fl \<Rightarrow> fl" where
  "fsub x y = fadd x (fneg y)"

text \<open>The sign of a product or quotient with an infinite operand.\<close>

definition signed_inf :: "bool \<Rightarrow> fl" where
  "signed_inf positive = (if positive then PInf else NInf)"

fun fmul :: "fl \<Rightarrow> fl \<Rightarrow> fl" where
  "fmul (Fin a) (Fin b) = Fin (a * b)"
| "fmul NaN y = NaN"
| "fmul x NaN = NaN"
| "fmul PInf (Fin b) = (if b = 0 then NaN else signed_inf (0 < b))"
| "fmul NInf (Fin b) = (if b = 0 then NaN else signed_inf (b < 0))"
| "fmul (Fin a) PInf = (if a = 0 then NaN else signed_inf (0 < a))"
| "fmul (Fin a) NInf = (if a = 0 then NaN else signed_inf (a < 0))"
| "fmul PInf PInf = PInf"
| "fmul NInf NInf = PInf"
| "fmul PInf NInf = NInf"
| "fmul NInf PInf = NInf"

text \<open>
  Division of numpy scalars and arrays does not raise: a nonzero value divided by zero
  is an infinity, zero divided by zero is NaN.
\<close>

fun fdiv :: "fl \<Rightarrow> fl \<Rightarrow> fl" where
  "fdiv (Fin a) (Fin b) =
     (if b = 0 then (if a = 0 then NaN else signed_inf (0 < a)) else Fin (a / b))"
| "fdiv NaN y = NaN"
| "fdiv x NaN = NaN"
| "fdiv (Fin a) y = Fin 0"
| "fdiv PInf (Fin b) = signed_inf (0 \<le> b)"
| "fdiv NInf (Fin b) = signed_inf (b < 0)"
| "fdiv PInf PInf = NaN"
| "fdiv PInf NInf = NaN"
| "fdiv NInf PInf = NaN"
| "fdiv NInf NInf = NaN"

text \<open>\<^verbatim>\<open>np.square\<close>, \<^verbatim>\<open>np.power(10.0, x)\<close>, \<^verbatim>\<open>np.log10\<close> and \<^verbatim>\<open>np.log2\<close>.\<close>

definition fsquare :: "fl \<Rightarrow> fl" where
  "fsquare x = fmul x x"

fun fpow10 :: "fl \<Rightarrow> fl" where
  "fpow10 NaN = NaN"
| "fpow10 NInf = Fin 0"
| "fpow10 (Fin a) = Fin (10 powr a)"
| "fpow10 PInf = PInf"

fun flog :: "real \<Rightarrow> fl \<Rightarrow> fl" where
  "flog b NaN = NaN"
| "flog b NInf = NaN"
| "flog b (Fin a) = (if a = 0 then NInf else if a < 0 then NaN else Fin (log b a))"
| "flog b PInf = PInf"

text \<open>Comparisons: every comparison with a NaN is false.\<close>

fun flt :: "fl \<Rightarrow> fl \<Rightarrow> bool" where
  "flt (Fin a) (Fin b) = (a < b)"
| "flt NaN y = False"
| "flt x NaN = False"
| "flt x NInf = False"
| "flt PInf y = False"
| "flt NInf y = True"
| "flt (Fin a) PInf = True"

definition fle :: "fl \<Rightarrow> fl \<Rightarrow> bool" where
  "fle x y = (flt x y \<or> (x = y \<and> x \<noteq> NaN))"

definition fgt :: "fl \<Rightarrow> fl \<Rightarrow> bool" where
  "fgt x y = flt y x"

definition fge :: "fl \<Rightarrow> fl \<Rightarrow> bool" where
  "fge x y = fle y x"

section \<open>Arrays and numpy\<close>

text \<open>
  An audio array has shape (samples) or (samples, channels).  The model keeps it as the
  list of its channels, each the list of that channel's samples; a one-dimensional array
  is the case of one channel.  All channels of an array have the same length.
\<close>

type_synonym audio = "fl list list"

datatype error = ValueError | ZeroDivisionError

definition numChannels :: "audio \<Rightarrow> nat" where
  "numChannels data = length data"

definition numSamples :: "audio \<Rightarrow> nat" where
  "numSamples data = (case data of [] \<Rightarrow> 0 | c # cs \<Rightarrow> length c)"

definition rectangular :: "audio \<Rightarrow> bool" where
  "rectangular data = list_all (\<lambda>c. length c = numSamples data) data"

text \<open>\<^verbatim>\<open>np.max\<close>: a NaN element makes the result NaN; an empty array raises.\<close>

definition fmax2 :: "fl \<Rightarrow> fl \<Rightarrow> fl" where
  "fmax2 x y = (if x = NaN \<or> y = NaN then NaN else if flt x y then y else x)"

definition np_max :: "fl list \<Rightarrow> error + fl" where
  "np_max xs = (case xs of [] \<Rightarrow> Inl ValueError | x # ys \<Rightarrow> Inr (foldl fmax2 x ys))"

definition np_sum :: "fl list \<Rightarrow> fl" where
  "np_sum xs = foldl fadd (Fin 0) xs"

text \<open>\<^verbatim>\<open>np.mean\<close>: the mean of an empty list is 0/0, a NaN.\<close>

definition np_mean :: "fl list \<Rightarrow> fl" where
  "np_mean xs = fdiv (np_sum xs) (Fin (real (length xs)))"

definition float_max :: real where
  "float_max = (2 - 1 / 2 ^ 52) * 2 ^ 1023"

fun nan_to_num :: "fl \<Rightarrow> fl" where
  "nan_to_num NaN = Fin 0"
| "nan_to_num NInf = Fin (- float_max)"
| "nan_to_num (Fin a) = Fin a"
| "nan_to_num PInf = Fin float_max"

text \<open>\<^verbatim>\<open>gain * data\<close>, a new array.\<close>

definition scale :: "fl \<Rightarrow> audio \<Rightarrow> audio" where
  "scale gain data = map (map (fmul gain)) data"

text \<open>\<^verbatim>\<open>np.round\<close> rounds a half to the even neighbour; \<^verbatim>\<open>int\<close> truncates towards zero.\<close>

definition np_round :: "real \<Rightarrow> int" where
  "np_round x =
     (let f = \<lfloor>x\<rfloor>; d = x - of_int f
      in if d < 1 / 2 then f else if 1 / 2 < d then f + 1 else if even f then f else f + 1)"

definition py_int :: "real \<Rightarrow> int" where
  "py_int x = (if 0 \<le> x then \<lfloor>x\<rfloor> else \<lceil>x\<rceil>)"

text \<open>The slice \<^verbatim>\<open>xs[l:u]\<close>: a negative bound counts from the end, and both are clipped.\<close>

definition slice_bound :: "nat \<Rightarrow> int \<Rightarrow> nat" where
  "slice_bound n i = (if i < 0 then nat (max (i + int n) 0) else min (nat i) n)"

definition py_slice :: "'a list \<Rightarrow> int \<Rightarrow> int \<Rightarrow> 'a list" where
  "py_slice xs l u =
     (let l' = slice_bound (length xs) l; u' = slice_bound (length xs) u
      in take (u' - l') (drop l' xs))"

section \<open>The pyloudnorm package\<close>

text \<open>
  \<^verbatim>\<open>loudness_norm\<close> and \<^verbatim>\<open>loudness_norm_file\<close> are compositions of three functions of
  the pyloudnorm package, which the repository imports and does not contain.  This
  section transcribes them from the package (version 0.1), statement by statement.
\<close>

subsection \<open>normalize.peak and normalize.loudness\<close>

text \<open>
  Both functions end with
  \<^verbatim>\<open>if np.max(np.abs(output)) >= 1.0: warnings.warn(...)\<close>;
  the warning changes nothing, but the maximum of an empty array raises.
\<close>

definition warn_clipped :: "audio \<Rightarrow> error + audio" where
  "warn_clipped output =
     (case np_max (map fabs (concat output)) of Inl e \<Rightarrow> Inl e | Inr m \<Rightarrow> Inr output)"

text \<open>
  \<^verbatim>\<open>current_peak = np.max(np.abs(data))\<close>,
  \<^verbatim>\<open>gain = np.power(10.0, target/20.0) / current_peak\<close>,
  \<^verbatim>\<open>output = gain * data\<close>.
\<close>

definition peak_gain :: "fl \<Rightarrow> real \<Rightarrow> fl" where
  "peak_gain current_peak target = fdiv (fpow10 (Fin (target / 20))) current_peak"

definition normalize_peak :: "audio \<Rightarrow> real \<Rightarrow> error + audio" where
  "normalize_peak data target =
     (case np_max (map fabs (concat data)) of
        Inl e \<Rightarrow> Inl e
      | Inr current_peak \<Rightarrow> warn_clipped (scale (peak_gain current_peak target) data))"

text \<open>
  \<^verbatim>\<open>delta_loudness = target_loudness - input_loudness\<close>,
  \<^verbatim>\<open>gain = np.power(10.0, delta_loudness/20.0)\<close>,
  \<^verbatim>\<open>output = gain * data\<close>.
\<close>

definition loudness_gain :: "fl \<Rightarrow> real \<Rightarrow> fl" where
  "loudness_gain input_loudness target_loudness =
     fpow10 (fdiv (fsub (Fin target_loudness) input_loudness) (Fin 20))"

definition normalize_loudness :: "audio \<Rightarrow> fl \<Rightarrow> real \<Rightarrow> error + audio" where
  "normalize_loudness data input_loudness target_loudness =
     warn_clipped (scale (loudness_gain input_loudness target_loudness) data)"

subsection \<open>The K-weighting filters\<close>

text \<open>
  An \<^verbatim>\<open>IIRfilter\<close> computes its coefficients from the gain \<^verbatim>\<open>G\<close>, the quality \<^verbatim>\<open>Q\<close>,
  the centre frequency \<^verbatim>\<open>fc\<close> and the sample rate each time it is applied:
  \<^verbatim>\<open>A = 10**(G/40.0)\<close>, \<^verbatim>\<open>w0 = 2.0 * np.pi * (fc / rate)\<close>,
  \<^verbatim>\<open>alpha = np.sin(w0) / (2.0 * Q)\<close>, then the six coefficients of its type, returned
  as \<^verbatim>\<open>[b0, b1, b2]/a0\<close> and \<^verbatim>\<open>[a0, a1, a2]/a0\<close>.  The rate is a Python integer, so a
  rate of 0 raises in \<^verbatim>\<open>fc / rate\<close>.
\<close>

datatype filter_type = high_shelf | high_pass

record iirfilter =
  filt_G :: real
  filt_Q :: real
  filt_fc :: real
  filt_rate :: int
  filt_type :: filter_type
  passband_gain :: real

type_synonym coefficients = "fl list \<times> fl list"

definition raw_coefficients :: "iirfilter \<Rightarrow> real list \<times> real list" where
  "raw_coefficients f =
     (let A = 10 powr (filt_G f / 40);
          w0 = 2 * pi * (filt_fc f / real_of_int (filt_rate f));
          alpha = sin w0 / (2 * filt_Q f)
      in case filt_type f of
           high_shelf \<Rightarrow>
             ([A * ((A + 1) + (A - 1) * cos w0 + 2 * sqrt A * alpha),
               - 2 * A * ((A - 1) + (A + 1) * cos w0),
               A * ((A + 1) + (A - 1) * cos w0 - 2 * sqrt A * alpha)],
              [(A + 1) - (A - 1) * cos w0 + 2 * sqrt A * alpha,
               2 * ((A - 1) - (A + 1) * cos w0),
               (A + 1) - (A - 1) * cos w0 - 2 * sqrt A * alpha])
         | high_pass \<Rightarrow>
             ([(1 + cos w0) / 2, - (1 + cos w0), (1 + cos w0) / 2],
              [1 + alpha, - 2 * cos w0, 1 - alpha]))"

definition normalized :: "real list \<times> real list \<Rightarrow> coefficients" where
  "normalized ba =
     (let a0 = Fin (hd (snd ba))
      in (map (\<lambda>c. fdiv (Fin c) a0) (fst ba), map (\<lambda>c. fdiv (Fin c) a0) (snd ba)))"

definition generate_coefficients :: "iirfilter \<Rightarrow> error + coefficients" where
  "generate_coefficients f =
     (if filt_rate f = 0 then Inl ZeroDivisionError
      else Inr (normalized (raw_coefficients f)))"

text \<open>
  \<^verbatim>\<open>scipy.signal.lfilter(b, a, x)\<close> for three coefficients each: \<^verbatim>\<open>b\<close> and \<^verbatim>\<open>a\<close> are
  divided by \<^verbatim>\<open>a[0]\<close>, and the filter runs in transposed direct form II from a zero
  state: \<^verbatim>\<open>y = z0 + b0*x\<close>, \<^verbatim>\<open>z0 = z1 + b1*x - a1*y\<close>, \<^verbatim>\<open>z1 = b2*x - a2*y\<close>.
\<close>

fun lfilter_loop :: "fl list \<Rightarrow> fl list \<Rightarrow> fl \<times> fl \<Rightarrow> fl list \<Rightarrow> fl list" where
  "lfilter_loop b a (z0, z1) [] = []"
| "lfilter_loop b a (z0, z1) (x # xs) =
     (let y = fadd z0 (fmul (b ! 0) x);
          z0' = fsub (fadd z1 (fmul (b ! 1) x)) (fmul (a ! 1) y);
          z1' = fsub (fmul (b ! 2) x) (fmul (a ! 2) y)
      in y # lfilter_loop b a (z0', z1') xs)"

definition lfilter :: "fl list \<Rightarrow> fl list \<Rightarrow> fl list \<Rightarrow> fl list" where
  "lfilter b a x =
     lfilter_loop (map (\<lambda>c. fdiv c (a ! 0)) b) (map (\<lambda>c. fdiv c (a ! 0)) a)
       (Fin 0, Fin 0) x"

text \<open>\<^verbatim>\<open>passband_gain * scipy.signal.lfilter(self.b, self.a, data)\<close>\<close>

definition apply_filter :: "iirfilter \<Rightarrow> fl list \<Rightarrow> error + fl list" where
  "apply_filter f data =
     (case generate_coefficients f of
        Inl e \<Rightarrow> Inl e
      | Inr (b, a) \<Rightarrow> Inr (map (fmul (Fin (passband_gain f))) (lfilter b a data)))"

text \<open>
  One stage of the meter's loop over its filters:
  \<^verbatim>\<open>for ch in range(numChannels): input_data[:,ch] = filter_stage.apply_filter(input_data[:,ch])\<close>.
\<close>

fun apply_stage :: "iirfilter \<Rightarrow> audio \<Rightarrow> error + audio" where
  "apply_stage f [] = Inr []"
| "apply_stage f (c # cs) =
     (case apply_filter f c of
        Inl e \<Rightarrow> Inl e
      | Inr c' \<Rightarrow> (case apply_stage f cs of Inl e \<Rightarrow> Inl e | Inr cs' \<Rightarrow> Inr (c' # cs')))"

subsection \<open>The meter\<close>

text \<open>
  \<^verbatim>\<open>Meter(rate, block_size=...)\<close> stores the rate and the block size and, for the
  K-weighting class, the two filters
  \<^verbatim>\<open>IIRfilter(4.0, 1/np.sqrt(2), 1500.0, rate, 'high_shelf')\<close> and
  \<^verbatim>\<open>IIRfilter(0.0, 0.5, 38.0, rate, 'high_pass')\<close>, in this order.
\<close>

definition shelf_filter :: "int \<Rightarrow> iirfilter" where
  "shelf_filter r =
     \<lparr>filt_G = 4, filt_Q = 1 / sqrt 2, filt_fc = 1500, filt_rate = r,
      filt_type = high_shelf, passband_gain = 1\<rparr>"

definition pass_filter :: "int \<Rightarrow> iirfilter" where
  "pass_filter r =
     \<lparr>filt_G = 0, filt_Q = 1 / 2, filt_fc = 38, filt_rate = r,
      filt_type = high_pass, passband_gain = 1\<rparr>"

record meter =
  meter_rate :: int
  meter_block_size :: real
  meter_filters :: "iirfilter list"

definition Meter :: "int \<Rightarrow> real \<Rightarrow> meter" where
  "Meter r bs =
     \<lparr>meter_rate = r, meter_block_size = bs,
      meter_filters = [shelf_filter r, pass_filter r]\<rparr>"

text \<open>
  \<^verbatim>\<open>util.valid_audio\<close>: the array is a floating-point numpy array (by its type here); it
  raises when \<^verbatim>\<open>data.ndim == 2 and data.shape[1] > 5\<close> ("Audio must have five channels
  or less.") and when \<^verbatim>\<open>data.shape[0] < block_size * rate\<close> ("Audio must have length
  greater than the block size.").  The product is the exact one here; the program
  compares with the product rounded to a float, which can differ from it in the last
  place, so that the two disagree for a length within that error of one block.
\<close>

definition valid_audio :: "audio \<Rightarrow> int \<Rightarrow> real \<Rightarrow> error + unit" where
  "valid_audio data r bs =
     (if 5 < numChannels data then Inl ValueError
      else if real (numSamples data) < bs * real_of_int r then Inl ValueError
      else Inr ())"

text \<open>
  The channel gains \<^verbatim>\<open>G\<close>, the absolute threshold \<^verbatim>\<open>Gamma_a\<close> and the step
  \<^verbatim>\<open>1.0 - overlap\<close> of \<^verbatim>\<open>integrated_loudness\<close>.
\<close>

definition channel_gains :: "real list" where
  "channel_gains = [1, 1, 1, 1.41, 1.41]"

definition Gamma_a :: fl where
  "Gamma_a = Fin (- 70)"

definition step :: real where
  "step = 1 - 0.75"

text \<open>\<^verbatim>\<open>np.sum([G[i] * v[i] for i in range(numChannels)])\<close>\<close>

definition weighted_sum :: "fl list \<Rightarrow> fl" where
  "weighted_sum v = np_sum (map2 (\<lambda>g x. fmul (Fin g) x) channel_gains v)"

text \<open>\<^verbatim>\<open>-0.691 + 10.0 * np.log10(x)\<close>\<close>

definition lufs :: "fl \<Rightarrow> fl" where
  "lufs x = fadd (Fin (- 0.691)) (fmul (Fin 10) (flog 10 x))"

text \<open>
  The mean square of block \<open>j\<close> of one filtered channel:
  \<^verbatim>\<open>l = int(T_g * (j * step) * rate)\<close>, \<^verbatim>\<open>u = int(T_g * (j * step + 1) * rate)\<close>,
  \<^verbatim>\<open>z[i,j] = (1.0 / (T_g * rate)) * np.sum(np.square(input_data[l:u,i]))\<close>.
  The bounds truncate exact products here; the rounded products of the program can fall
  on the other side of an integer, and then a block is one sample longer or shorter.
\<close>

definition block_energy :: "real \<Rightarrow> int \<Rightarrow> fl list \<Rightarrow> nat \<Rightarrow> fl" where
  "block_energy T_g r channel j =
     (let l = py_int (T_g * (real j * step) * real_of_int r);
          u = py_int (T_g * (real j * step + 1) * real_of_int r)
      in fmul (Fin (1 / (T_g * real_of_int r))) (np_sum (map fsquare (py_slice channel l u))))"

text \<open>
  The gating of \<^verbatim>\<open>integrated_loudness\<close>, on the block energies \<open>z\<close> (one list per
  channel): the block loudnesses \<^verbatim>\<open>l\<close>; the blocks \<^verbatim>\<open>l_j >= Gamma_a\<close>; the relative
  threshold \<^verbatim>\<open>Gamma_r\<close>, 10 below the loudness of their mean energy; the blocks
  \<^verbatim>\<open>l_j > Gamma_r and l_j > Gamma_a\<close>; the loudness of the mean energy of these, where
  \<^verbatim>\<open>np.nan_to_num\<close> replaces the mean of no block.
\<close>

definition block_loudness :: "fl list list \<Rightarrow> nat \<Rightarrow> fl" where
  "block_loudness z j = lufs (weighted_sum (map (\<lambda>zi. zi ! j) z))"

definition gated_mean :: "fl list list \<Rightarrow> nat list \<Rightarrow> fl list" where
  "gated_mean z J_g = map (\<lambda>zi. np_mean (map (\<lambda>j. zi ! j) J_g)) z"

definition gated_loudness :: "nat \<Rightarrow> fl list list \<Rightarrow> fl" where
  "gated_loudness numBlocks z =
     (let l = map (block_loudness z) [0..<numBlocks];
          J_g = filter (\<lambda>j. fge (l ! j) Gamma_a) [0..<numBlocks];
          z_avg_gated = gated_mean z J_g;
          Gamma_r = fsub (lufs (weighted_sum z_avg_gated)) (Fin 10);
          J_g = filter (\<lambda>j. fgt (l ! j) Gamma_r \<and> fgt (l ! j) Gamma_a) [0..<numBlocks];
          z_avg_gated = map nan_to_num (gated_mean z J_g)
      in lufs (weighted_sum z_avg_gated))"

fun apply_filters :: "iirfilter list \<Rightarrow> audio \<Rightarrow> error + audio" where
  "apply_filters [] data = Inr data"
| "apply_filters (f # fs) data =
     (case apply_stage f data of Inl e \<Rightarrow> Inl e | Inr data' \<Rightarrow> apply_filters fs data')"

text \<open>
  \<^verbatim>\<open>Meter.integrated_loudness\<close> copies the array, checks the copy and filters it in
  place.  From the filtered copy it computes \<^verbatim>\<open>T = numSamples / rate\<close> and
  \<^verbatim>\<open>numBlocks = int(np.round(((T - T_g) / (T_g * step))) + 1)\<close>, both divisions of Python
  numbers, which raise on a zero divisor; \<^verbatim>\<open>np.zeros(shape=(numChannels, numBlocks))\<close>
  raises on a negative number of blocks; then the block energies and the gating.
  The quotient is exact here; where it is a half-integer, the rounded quotient of the
  program can round the other way and give one block less.
\<close>

definition measure_blocks :: "meter \<Rightarrow> nat \<Rightarrow> audio \<Rightarrow> error + fl" where
  "measure_blocks m n input_data =
     (let T_g = meter_block_size m; r = meter_rate m
      in if r = 0 then Inl ZeroDivisionError
         else let T = real n / real_of_int r
              in if T_g * step = 0 then Inl ZeroDivisionError
                 else let numBlocks = np_round ((T - T_g) / (T_g * step)) + 1
                      in if numBlocks < 0 then Inl ValueError
                         else Inr (gated_loudness (nat numBlocks)
                                (map (\<lambda>channel. map (block_energy T_g r channel)
                                        [0..<nat numBlocks]) input_data)))"

definition integrated_loudness :: "meter \<Rightarrow> audio \<Rightarrow> error + fl" where
  "integrated_loudness m data =
     (case valid_audio data (meter_rate m) (meter_block_size m) of
        Inl e \<Rightarrow> Inl e
      | Inr ok \<Rightarrow>
          (case apply_filters (meter_filters m) data of
             Inl e \<Rightarrow> Inl e
           | Inr input_data \<Rightarrow> measure_blocks m (numSamples data) input_data))"

section \<open>Loudness normalization (utils/loudness\_norm.py)\<close>

text \<open>
  \<^verbatim>\<open>loudness_norm\<close>: peak normalization, then the meter on the peak-normalized array, then
  the loudness gain on the peak-normalized array.
\<close>

definition loudness_norm :: "audio \<Rightarrow> int \<Rightarrow> real \<Rightarrow> real \<Rightarrow> real \<Rightarrow> error + audio" where
  "loudness_norm audio r peak loudness bs =
     (case normalize_peak audio peak of
        Inl e \<Rightarrow> Inl e
      | Inr audio' \<Rightarrow>
          (case integrated_loudness (Meter r bs) audio' of
             Inl e \<Rightarrow> Inl e
           | Inr loudness' \<Rightarrow> normalize_loudness audio' loudness' loudness))"

text \<open>
  \<^verbatim>\<open>loudness_norm_file\<close>, from the decoded array and rate of the input file to the array
  it writes: a meter with the default block size of 0.4 s (the \<^verbatim>\<open>block_size\<close> argument is
  not used), the loudness gain from the loudness of the decoded array, then peak
  normalization.  Every exception is printed and raised again.
\<close>

definition loudness_norm_file :: "audio \<Rightarrow> int \<Rightarrow> real \<Rightarrow> real \<Rightarrow> real \<Rightarrow> error + audio" where
  "loudness_norm_file audio r peak loudness bs =
     (case integrated_loudness (Meter r 0.4) audio of
        Inl e \<Rightarrow> Inl e
      | Inr loudness_pre \<Rightarrow>
          (case normalize_loudness audio loudness_pre loudness of
             Inl e \<Rightarrow> Inl e
           | Inr audio' \<Rightarrow> normalize_peak audio' peak))"

section \<open>The note histogram of one file (cli/frequency.py)\<close>

text \<open>
  \<^verbatim>\<open>count_midi_from_file\<close> reads the pitch track \<^verbatim>\<open>f0\<close> of a file with parselmouth and
  counts the MIDI key of every frame.  The pitch track is the input of the model.

  A \<^verbatim>\<open>Counter\<close> is a dictionary whose missing keys read as 0.  It is modelled as an
  association list in insertion order.  A key is found when it is equal to a stored key;
  a NaN is equal to nothing, itself included, and each call of the conversion returns a
  new object, so a NaN key is never found and always makes a new entry.
\<close>

type_synonym counter = "(fl \<times> nat) list"

definition key_eq :: "fl \<Rightarrow> fl \<Rightarrow> bool" where
  "key_eq a b = (a = b \<and> a \<noteq> NaN)"

fun counter_get :: "counter \<Rightarrow> fl \<Rightarrow> nat" where
  "counter_get [] k = 0"
| "counter_get ((k', n) # c) k = (if key_eq k' k then n else counter_get c k)"

fun counter_set :: "counter \<Rightarrow> fl \<Rightarrow> nat \<Rightarrow> counter" where
  "counter_set [] k v = [(k, v)]"
| "counter_set ((k', n) # c) k v =
     (if key_eq k' k then (k', v) # c else (k', n) # counter_set c k v)"

text \<open>\<^verbatim>\<open>counter[k] += 1\<close>\<close>

definition counter_incr :: "counter \<Rightarrow> fl \<Rightarrow> counter" where
  "counter_incr c k = counter_set c k (counter_get c k + 1)"

text \<open>\<^verbatim>\<open>np.isinf(i) or np.isnan(i) or i == 0\<close>\<close>

definition skipped :: "fl \<Rightarrow> bool" where
  "skipped i = (isinf i \<or> isnan i \<or> i = Fin 0)"

text \<open>
  \<^verbatim>\<open>librosa.hz_to_midi\<close> (of the librosa package):
  \<^verbatim>\<open>12 * (np.log2(frequencies) - np.log2(440.0)) + 69\<close>.
\<close>

definition hz_to_midi :: "fl \<Rightarrow> fl" where
  "hz_to_midi frequencies =
     fadd (fmul (Fin 12) (fsub (flog 2 frequencies) (flog 2 (Fin 440)))) (Fin 69)"

text \<open>The loop over the frames, for any conversion \<open>conv\<close> from frequency to key.\<close>

fun count_loop :: "(fl \<Rightarrow> fl) \<Rightarrow> fl list \<Rightarrow> counter \<Rightarrow> counter" where
  "count_loop conv [] counter = counter"
| "count_loop conv (i # f0) counter =
     (if skipped i then count_loop conv f0 counter
      else count_loop conv f0 (counter_incr counter (conv i)))"

definition count_midi_from_file :: "fl list \<Rightarrow> counter" where
  "count_midi_from_file f0 = count_loop hz_to_midi f0 []"

text \<open>The frames that are counted, and the sum of all counts of a counter.\<close>

definition surviving :: "fl list \<Rightarrow> fl list" where
  "surviving f0 = filter (\<lambda>i. \<not> skipped i) f0"

definition counter_total :: "counter \<Rightarrow> nat" where
  "counter_total c = sum_list (map snd c)"

definition nan_entries :: "counter \<Rightarrow> counter" where
  "nan_entries c = filter (\<lambda>e. fst e = NaN) c"

section \<open>Notions used in the statements\<close>

text \<open>The largest absolute sample of a non-empty array, as \<^verbatim>\<open>normalize.peak\<close> reads it.\<close>

definition current_peak :: "audio \<Rightarrow> fl" where
  "current_peak data =
     (case map fabs (concat data) of [] \<Rightarrow> NaN | x # ys \<Rightarrow> foldl fmax2 x ys)"

text \<open>
  One channel through one filter, and an array through the two filters of the meter, when
  the rate is not 0.
\<close>

definition filter_channel :: "iirfilter \<Rightarrow> fl list \<Rightarrow> fl list" where
  "filter_channel f c =
     map (fmul (Fin (passband_gain f)))
       (lfilter (fst (normalized (raw_coefficients f))) (snd (normalized (raw_coefficients f))) c)"

definition k_weighting :: "int \<Rightarrow> audio \<Rightarrow> audio" where
  "k_weighting r data =
     map (\<lambda>c. filter_channel (pass_filter r) (filter_channel (shelf_filter r) c)) data"

text \<open>The number of blocks and the block energies of a filtered array of \<open>n\<close> samples.\<close>

definition num_blocks :: "int \<Rightarrow> real \<Rightarrow> nat \<Rightarrow> nat" where
  "num_blocks r bs n = nat (np_round ((real n / real_of_int r - bs) / (bs * step)) + 1)"

definition block_energies :: "int \<Rightarrow> real \<Rightarrow> nat \<Rightarrow> audio \<Rightarrow> fl list list" where
  "block_energies r bs n input_data =
     map (\<lambda>channel. map (block_energy bs r channel) [0..<num_blocks r bs n]) input_data"

text \<open>
  Silence is an array of zeros; \<open>all_nan\<close> is the array of the same shape whose samples are
  all NaN.  A value that is zero or NaN stays so through the filters and the block
  energies.
\<close>

definition zero_or_nan :: "fl \<Rightarrow> bool" where
  "zero_or_nan x = (x = Fin 0 \<or> x = NaN)"

definition all_nan :: "audio \<Rightarrow> audio" where
  "all_nan data = map (map (\<lambda>x. NaN)) data"

definition is_silent :: "audio \<Rightarrow> bool" where
  "is_silent data = list_all (list_all (\<lambda>x. x = Fin 0)) data"

text \<open>
  \<^verbatim>\<open>loudness_norm\<close> with a log of the statements that completed before it returned or
  raised, each with the value it computed: line 29 (peak normalization), lines 32 and 33
  (the meter and its measurement), line 35 (the loudness gain).
\<close>

datatype stage = PeakNormalized audio | Measured fl | LoudnessNormalized audio

definition loudness_norm_trace ::
  "audio \<Rightarrow> int \<Rightarrow> real \<Rightarrow> real \<Rightarrow> real \<Rightarrow> stage list \<times> (error + audio)" where
  "loudness_norm_trace audio r peak loudness bs =
     (case normalize_peak audio peak of
        Inl e \<Rightarrow> ([], Inl e)
      | Inr audio' \<Rightarrow>
          (case integrated_loudness (Meter r bs) audio' of
             Inl e \<Rightarrow> ([PeakNormalized audio'], Inl e)
           | Inr loudness' \<Rightarrow>
               (case normalize_loudness audio' loudness' loudness of
                  Inl e \<Rightarrow> ([PeakNormalized audio', Measured loudness'], Inl e)
                | Inr out \<Rightarrow>
                    ([PeakNormalized audio', Measured loudness', LoudnessNormalized out],
                     Inr out))))"

text \<open>
  The first output sample of a filter for a first input sample 1 is its normalized
  coefficient \<open>b0 / a0\<close>; \<open>k_gain\<close> is the product over the two filters of the meter.
\<close>

definition stage_gain :: "iirfilter \<Rightarrow> real" where
  "stage_gain f = hd (fst (raw_coefficients f)) / hd (snd (raw_coefficients f))"

definition k_gain :: "int \<Rightarrow> real" where
  "k_gain r = stage_gain (shelf_filter r) * stage_gain (pass_filter r)"

text \<open>A mono array of \<open>n\<close> zeros followed by one sample \<open>v\<close>: a click at its end.\<close>

definition impulse :: "nat \<Rightarrow> real \<Rightarrow> audio" where
  "impulse n v = [replicate n (Fin 0) @ [Fin v]]"

text \<open>
  The loudness of the single block of a click of 19200 samples at 48 kHz whose last
  sample is \<open>v\<close>.
\<close>

definition click_lufs :: "real \<Rightarrow> real" where
  "click_lufs v = - 0.691 + 10 * log 10 ((k_gain 48000 * v)\<^sup>2 / 19200)"

text \<open>
  The loudness that \<^verbatim>\<open>loudness_norm\<close> measures (line 33), on the peak-normalized array; and
  the bound on the largest absolute sample of a returned array.
\<close>

definition measured_loudness :: "audio \<Rightarrow> int \<Rightarrow> real \<Rightarrow> real \<Rightarrow> error + fl" where
  "measured_loudness audio r peak bs =
     (case normalize_peak audio peak of
        Inl e \<Rightarrow> Inl e
      | Inr audio' \<Rightarrow> integrated_loudness (Meter r bs) audio')"

definition peak_within :: "audio \<Rightarrow> real \<Rightarrow> bool" where
  "peak_within out bound = (concat out \<noteq> [] \<and> fle (current_peak out) (Fin bound))"

text \<open>
  The effective gain as the specification words it (section 4.5, steps 1 to 4), to be
  compared with what the code applies: the loudness \<open>L\<close> of the array, the loudness gain
  \<open>10^((target - L)/20)\<close> or 1 when \<open>L\<close> is minus infinity, the peak-capping gain
  \<open>10^(peak/20) / max|x|\<close> or 1 on silence, and the smaller of the two.
\<close>

definition fmin2 :: "fl \<Rightarrow> fl \<Rightarrow> fl" where
  "fmin2 x y = (if x = NaN \<or> y = NaN then NaN else if flt y x then y else x)"

definition spec_gain :: "audio \<Rightarrow> int \<Rightarrow> real \<Rightarrow> real \<Rightarrow> real \<Rightarrow> fl" where
  "spec_gain audio r peak loudness bs =
     (case integrated_loudness (Meter r bs) audio of
        Inl e \<Rightarrow> NaN
      | Inr L \<Rightarrow>
          fmin2 (if L = NInf then Fin 1 else loudness_gain L loudness)
            (if current_peak audio = Fin 0 then Fin 1
             else peak_gain (current_peak audio) peak))"

text \<open>
  The two passes of the gating, named: the blocks that pass the absolute gate, the relative
  threshold computed from them, and the blocks that pass both gates.  \<open>two_blocks\<close> is the
  matrix of block energies of a signal of two blocks, from one pair of finite energies per
  channel.
\<close>

definition absolute_gate :: "nat \<Rightarrow> fl list list \<Rightarrow> nat list" where
  "absolute_gate numBlocks z =
     filter (\<lambda>j. fge (block_loudness z j) Gamma_a) [0..<numBlocks]"

definition relative_threshold :: "nat \<Rightarrow> fl list list \<Rightarrow> fl" where
  "relative_threshold numBlocks z =
     fsub (lufs (weighted_sum (gated_mean z (absolute_gate numBlocks z)))) (Fin 10)"

definition surviving_blocks :: "nat \<Rightarrow> fl list list \<Rightarrow> nat list" where
  "surviving_blocks numBlocks z =
     filter (\<lambda>j. fgt (block_loudness z j) (relative_threshold numBlocks z)
                \<and> fgt (block_loudness z j) Gamma_a) [0..<numBlocks]"


text \<open>
  For the effect of a call on the arrays of its caller, the same functions over a store:
  the list of the arrays that exist, an array being named by its position.  A new array
  is appended; the arrays before it keep their positions.
\<close>

type_synonym store = "audio list"

definition alloc :: "store \<Rightarrow> audio \<Rightarrow> store \<times> nat" where
  "alloc s a = (s @ [a], length s)"

text \<open>
  \<^verbatim>\<open>normalize.peak\<close> and \<^verbatim>\<open>normalize.loudness\<close> read \<^verbatim>\<open>data\<close> and return the new array
  \<^verbatim>\<open>output = gain * data\<close>.
\<close>

definition peak_st :: "store \<Rightarrow> nat \<Rightarrow> real \<Rightarrow> store \<times> (error + nat)" where
  "peak_st s data target =
     (case np_max (map fabs (concat (s ! data))) of
        Inl e \<Rightarrow> (s, Inl e)
      | Inr peak \<Rightarrow>
          (case alloc s (scale (peak_gain peak target) (s ! data)) of
             (s', output) \<Rightarrow>
               (case warn_clipped (s' ! output) of
                  Inl e \<Rightarrow> (s', Inl e)
                | Inr ok \<Rightarrow> (s', Inr output))))"

definition loudness_st :: "store \<Rightarrow> nat \<Rightarrow> fl \<Rightarrow> real \<Rightarrow> store \<times> (error + nat)" where
  "loudness_st s data input_loudness target_loudness =
     (case alloc s (scale (loudness_gain input_loudness target_loudness) (s ! data)) of
        (s', output) \<Rightarrow>
          (case warn_clipped (s' ! output) of
             Inl e \<Rightarrow> (s', Inl e)
           | Inr ok \<Rightarrow> (s', Inr output)))"

text \<open>
  The meter's loop over the channels writes each filtered channel into the array that
  \<^verbatim>\<open>input_data\<close> names: \<^verbatim>\<open>input_data[:,ch] = filter_stage.apply_filter(input_data[:,ch])\<close>.
\<close>

fun stage_st :: "iirfilter \<Rightarrow> store \<Rightarrow> nat \<Rightarrow> nat list \<Rightarrow> store \<times> (error + unit)" where
  "stage_st f s input_data [] = (s, Inr ())"
| "stage_st f s input_data (ch # chs) =
     (case apply_filter f (s ! input_data ! ch) of
        Inl e \<Rightarrow> (s, Inl e)
      | Inr c \<Rightarrow> stage_st f (s[input_data := (s ! input_data)[ch := c]]) input_data chs)"

fun filters_st :: "iirfilter list \<Rightarrow> store \<Rightarrow> nat \<Rightarrow> store \<times> (error + unit)" where
  "filters_st [] s input_data = (s, Inr ())"
| "filters_st (f # fs) s input_data =
     (case stage_st f s input_data [0..<numChannels (s ! input_data)] of
        (s', Inl e) \<Rightarrow> (s', Inl e)
      | (s', Inr ok) \<Rightarrow> filters_st fs s' input_data)"

text \<open>
  \<^verbatim>\<open>integrated_loudness\<close> starts with \<^verbatim>\<open>input_data = data.copy()\<close>, checks and filters the
  copy, and measures it.
\<close>

definition integrated_loudness_st :: "store \<Rightarrow> meter \<Rightarrow> nat \<Rightarrow> store \<times> (error + fl)" where
  "integrated_loudness_st s m data =
     (case alloc s (s ! data) of
        (s1, input_data) \<Rightarrow>
          (case valid_audio (s1 ! input_data) (meter_rate m) (meter_block_size m) of
             Inl e \<Rightarrow> (s1, Inl e)
           | Inr ok \<Rightarrow>
               (let n = numSamples (s1 ! input_data)
                in case filters_st (meter_filters m) s1 input_data of
                     (s2, Inl e) \<Rightarrow> (s2, Inl e)
                   | (s2, Inr ok) \<Rightarrow> (s2, measure_blocks m n (s2 ! input_data)))))"

text \<open>
  \<^verbatim>\<open>loudness_norm\<close>: the name \<^verbatim>\<open>audio\<close> is rebound to the array that \<^verbatim>\<open>normalize.peak\<close>
  returns; the meter and \<^verbatim>\<open>normalize.loudness\<close> are given that array.
\<close>

definition loudness_norm_st ::
  "store \<Rightarrow> nat \<Rightarrow> int \<Rightarrow> real \<Rightarrow> real \<Rightarrow> real \<Rightarrow> store \<times> (error + nat)" where
  "loudness_norm_st s audio r peak loudness bs =
     (case peak_st s audio peak of
        (s1, Inl e) \<Rightarrow> (s1, Inl e)
      | (s1, Inr audio') \<Rightarrow>
          (case integrated_loudness_st s1 (Meter r bs) audio' of
             (s2, Inl e) \<Rightarrow> (s2, Inl e)
           | (s2, Inr loudness') \<Rightarrow> loudness_st s2 audio' loudness' loudness))"

text \<open>A later store extends an earlier one when every array of the earlier one is unchanged.\<close>

definition extends :: "store \<Rightarrow> store \<Rightarrow> bool" where
  "extends s s' = (length s \<le> length s' \<and> list_all (\<lambda>p. s' ! p = s ! p) [0..<length s])"

text \<open>
  For a gain applied to the array before the call: the block energies of the K-weighted
  array, as the meter gates them; a value that is finite; and a shift \<open>d\<close> of the block
  loudnesses that moves no block across the absolute threshold, for either comparison of
  the gating.
\<close>

definition is_fin :: "fl \<Rightarrow> bool" where
  "is_fin x = (case x of Fin a \<Rightarrow> True | _ \<Rightarrow> False)"

definition k_weighted_energies :: "int \<Rightarrow> real \<Rightarrow> audio \<Rightarrow> fl list list" where
  "k_weighted_energies r bs audio =
     block_energies r bs (numSamples audio) (k_weighting r audio)"

definition gate_stable :: "nat \<Rightarrow> fl list list \<Rightarrow> real \<Rightarrow> bool" where
  "gate_stable numBlocks z d =
     list_all (\<lambda>j. fge (fadd (block_loudness z j) (Fin d)) Gamma_a = fge (block_loudness z j) Gamma_a
                \<and> fgt (fadd (block_loudness z j) (Fin d)) Gamma_a = fgt (block_loudness z j) Gamma_a)
       [0..<numBlocks]"

text \<open>
  The specification's consistency of the measurement (section 5): the loudness that the
  meter measures on the array with a gain of \<open>gain_db\<close> decibels applied is the loudness it
  measures on the array plus \<open>gain_db\<close>, within \<open>tol\<close>.
\<close>

definition raw_shift_within :: "audio \<Rightarrow> int \<Rightarrow> real \<Rightarrow> real \<Rightarrow> real \<Rightarrow> bool" where
  "raw_shift_within audio r bs gain_db tol =
     (case integrated_loudness (Meter r bs) audio of
        Inl e \<Rightarrow> False
      | Inr L \<Rightarrow>
          (case integrated_loudness (Meter r bs) (scale (Fin (10 powr (gain_db / 20))) audio) of
             Inl e \<Rightarrow> False
           | Inr L' \<Rightarrow> fle (fabs (fsub (fsub L' L) (Fin gain_db))) (Fin tol)))"

section \<open>Properties of the note histogram\<close>

lemma counter_get_set_same:
  "k \<noteq> NaN \<Longrightarrow> counter_get (counter_set c k v) k = v"
  by (induction c) (auto simp: key_eq_def)

lemma counter_get_set_other:
  "k' \<noteq> k \<Longrightarrow> counter_get (counter_set c k v) k' = counter_get c k'"
  by (induction c) (auto simp: key_eq_def)

lemma counter_get_NaN: "counter_get c NaN = 0"
  by (induction c) (auto simp: key_eq_def)

lemma counter_set_NaN: "counter_set c NaN v = c @ [(NaN, v)]"
  by (induction c) (auto simp: key_eq_def)

lemma counter_total_set: "counter_total (counter_set c k v) + counter_get c k = counter_total c + v"
  by (induction c) (auto simp: counter_total_def)

lemma counter_total_incr: "counter_total (counter_incr c k) = Suc (counter_total c)"
  using counter_total_set [of c k "counter_get c k + 1"] by (simp add: counter_incr_def)

lemma get_incr:
  "k' \<noteq> NaN \<Longrightarrow>
   counter_get (counter_incr c k) k' = counter_get c k' + (if k = k' then 1 else 0)"
  by (cases "k = k'")
     (auto simp: counter_incr_def counter_get_set_same counter_get_set_other)

lemma nan_entries_set:
  "nan_entries (counter_set c k v) =
     (if k = NaN then nan_entries c @ [(NaN, v)] else nan_entries c)"
  by (induction c) (auto simp: nan_entries_def key_eq_def)

lemma nan_entries_incr:
  "nan_entries (counter_incr c k) =
     (if k = NaN then nan_entries c @ [(NaN, 1)] else nan_entries c)"
  by (simp add: counter_incr_def nan_entries_set counter_get_NaN)

lemma keys_set: "fst ` set (counter_set c k v) = insert k (fst ` set c)"
  by (induction c) (force simp: key_eq_def)+

lemma counter_total_count_loop:
  "counter_total (count_loop h f0 c) = counter_total c + length (surviving f0)"
  by (induction f0 arbitrary: c) (auto simp: surviving_def counter_total_incr)

lemma get_count_loop:
  "k \<noteq> NaN \<Longrightarrow>
   counter_get (count_loop h f0 c) k =
     counter_get c k + length (filter (\<lambda>i. h i = k) (surviving f0))"
  by (induction f0 arbitrary: c) (auto simp: surviving_def get_incr)

lemma nan_count_loop:
  "nan_entries (count_loop h f0 c) =
     nan_entries c @ replicate (length (filter (\<lambda>i. h i = NaN) (surviving f0))) (NaN, 1)"
  by (induction f0 arbitrary: c)
     (auto simp: surviving_def nan_entries_incr replicate_append_same)

lemma keys_count_loop:
  "fst ` set (count_loop h f0 c) = fst ` set c \<union> h ` set (surviving f0)"
  by (induction f0 arbitrary: c) (auto simp: surviving_def counter_incr_def keys_set)

text \<open>
  Claim C10.  The counter returned by \<^verbatim>\<open>count_midi_from_file\<close> is built only from the
  frames whose frequency is neither infinite, NaN nor 0: its keys are the MIDI keys of
  the surviving frames, the count read at a key is the number of surviving frames with
  that key (a frame whose key is a NaN has an entry of its own, with count 1), and the
  sum of all counts is the number of surviving frames.
\<close>

theorem count_midi_from_file_counts:
  "surviving f0 = filter (\<lambda>i. \<not> (isinf i \<or> isnan i \<or> i = Fin 0)) f0
   \<and> fst ` set (count_midi_from_file f0) = hz_to_midi ` set (surviving f0)
   \<and> (k \<noteq> NaN \<longrightarrow>
        counter_get (count_midi_from_file f0) k =
          length (filter (\<lambda>i. hz_to_midi i = k) (surviving f0)))
   \<and> nan_entries (count_midi_from_file f0) =
        replicate (length (filter (\<lambda>i. hz_to_midi i = NaN) (surviving f0))) (NaN, 1)
   \<and> counter_total (count_midi_from_file f0) = length (surviving f0)"
proof -
  have "surviving f0 = filter (\<lambda>i. \<not> (isinf i \<or> isnan i \<or> i = Fin 0)) f0"
    by (simp add: surviving_def skipped_def)
  moreover have "fst ` set (count_midi_from_file f0) = hz_to_midi ` set (surviving f0)"
    by (simp add: count_midi_from_file_def keys_count_loop)
  moreover have "k \<noteq> NaN \<longrightarrow>
        counter_get (count_midi_from_file f0) k =
          length (filter (\<lambda>i. hz_to_midi i = k) (surviving f0))"
    by (simp add: count_midi_from_file_def get_count_loop)
  moreover have "nan_entries (count_midi_from_file f0) =
        replicate (length (filter (\<lambda>i. hz_to_midi i = NaN) (surviving f0))) (NaN, 1)"
    by (simp add: count_midi_from_file_def nan_count_loop) (simp add: nan_entries_def)
  moreover have "counter_total (count_midi_from_file f0) = length (surviving f0)"
    by (simp add: count_midi_from_file_def counter_total_count_loop) (simp add: counter_total_def)
  ultimately show ?thesis by blast
qed

lemma hz_to_midi_440: "hz_to_midi (Fin 440) = Fin 69"
  by (simp add: hz_to_midi_def fsub_def)

theorem count_midi_from_file_counts_witness:
  "Fin 69 \<noteq> NaN
   \<and> counter_get (count_midi_from_file [Fin 440, Fin 0, NaN, PInf, Fin 440])
        (Fin 69) = 2
   \<and> counter_total (count_midi_from_file [Fin 440, Fin 0, NaN, PInf, Fin 440]) = 2"
  using count_midi_from_file_counts
          [of "[Fin 440, Fin 0, NaN, PInf, Fin 440]" "Fin 69"]
  by (simp add: isinf_def isnan_def hz_to_midi_440)

section \<open>Raising and returning\<close>

lemma np_max_Inl: "np_max xs = Inl e \<longleftrightarrow> xs = [] \<and> e = ValueError"
  by (cases xs) (auto simp: np_max_def)

lemma concat_scale_Nil: "(concat (scale g data) = []) = (concat data = [])"
  by (induction data) (auto simp: scale_def)

lemma warn_clipped_eq:
  "warn_clipped output = (if concat output = [] then Inl ValueError else Inr output)"
proof (cases "concat output")
  case Nil
  then show ?thesis by (simp add: warn_clipped_def np_max_def del: concat_eq_Nil_conv)
next
  case (Cons x xs)
  then show ?thesis by (simp add: warn_clipped_def np_max_def del: concat_eq_Nil_conv)
qed

lemma normalize_peak_eq:
  "normalize_peak data target =
     (if concat data = [] then Inl ValueError
      else Inr (scale (peak_gain (current_peak data) target) data))"
proof (cases "concat data")
  case Nil
  then show ?thesis by (simp add: normalize_peak_def np_max_def del: concat_eq_Nil_conv)
next
  case (Cons x xs)
  then show ?thesis
    by (simp add: normalize_peak_def np_max_def warn_clipped_eq concat_scale_Nil
        current_peak_def del: concat_eq_Nil_conv)
qed

lemma normalize_loudness_eq:
  "normalize_loudness data L target =
     (if concat data = [] then Inl ValueError
      else Inr (scale (loudness_gain L target) data))"
  by (simp add: normalize_loudness_def warn_clipped_eq concat_scale_Nil del: concat_eq_Nil_conv)

lemma length_lfilter_loop: "length (lfilter_loop b a z x) = length x"
  by (induction b a z x rule: lfilter_loop.induct) (auto simp: Let_def)

lemma length_lfilter: "length (lfilter b a x) = length x"
  by (simp add: lfilter_def length_lfilter_loop)

lemma length_filter_channel: "length (filter_channel f c) = length c"
  by (simp add: filter_channel_def length_lfilter)

lemma apply_filter_eq:
  "apply_filter f c =
     (if filt_rate f = 0 then Inl ZeroDivisionError else Inr (filter_channel f c))"
  by (simp add: apply_filter_def generate_coefficients_def filter_channel_def
      split: prod.splits)

lemma apply_stage_eq:
  "apply_stage f data =
     (if data = [] then Inr []
      else if filt_rate f = 0 then Inl ZeroDivisionError
      else Inr (map (filter_channel f) data))"
  by (induction data) (auto simp: apply_filter_eq)

lemma filter_rates: "filt_rate (shelf_filter r) = r" "filt_rate (pass_filter r) = r"
  by (simp_all add: shelf_filter_def pass_filter_def)

lemma apply_filters_Meter:
  "apply_filters (meter_filters (Meter r bs)) data =
     (if data = [] then Inr []
      else if r = 0 then Inl ZeroDivisionError
      else Inr (k_weighting r data))"
  by (simp add: Meter_def apply_stage_eq filter_rates k_weighting_def)

lemma shape_k_weighting: "map length (k_weighting r data) = map length data"
  by (simp add: k_weighting_def length_filter_channel)

lemma np_round_nonneg: "0 \<le> x \<Longrightarrow> 0 \<le> np_round x"
  by (auto simp: np_round_def Let_def)

lemma np_round_le: "np_round x \<le> \<lfloor>x\<rfloor> + 1"
  by (auto simp: np_round_def Let_def)

lemma blocks_arg_eq:
  fixes n r bs :: real
  assumes "r \<noteq> 0"
  shows "(n / r - bs) / (bs * step) = (n - bs * r) / (bs * r * step)"
  using assms by (simp add: field_simps)

lemma blocks_arg_nonneg:
  fixes n r bs :: real
  assumes "0 < bs * r" "bs * r \<le> n"
  shows "0 \<le> (n / r - bs) / (bs * step)"
proof -
  have r: "r \<noteq> 0" using assms(1) by auto
  have "0 < bs * r * step" using assms(1) by (simp add: step_def)
  moreover have "0 \<le> n - bs * r" using assms(2) by simp
  ultimately have "0 \<le> (n - bs * r) / (bs * r * step)" by simp
  then show ?thesis using blocks_arg_eq [OF r] by simp
qed

lemma blocks_arg_neg:
  fixes n r bs :: real
  assumes "bs * r < 0" "0 \<le> n"
  shows "(n / r - bs) / (bs * step) \<le> - 4"
proof -
  have r: "r \<noteq> 0" using assms(1) by auto
  have neg: "bs * r * step < 0" using assms(1) by (simp add: step_def)
  have bs: "bs \<noteq> 0" using assms(1) by auto
  have "(n - bs * r) / (bs * r * step) = n / (bs * r * step) - 4"
    using r bs by (simp add: step_def field_simps)
  moreover have "n / (bs * r * step) \<le> 0"
    using neg assms(2) by (simp add: divide_nonneg_neg)
  ultimately show ?thesis using blocks_arg_eq [OF r, of n bs] by simp
qed


lemma Meter_sel: "meter_rate (Meter r bs) = r" "meter_block_size (Meter r bs) = bs"
  by (simp_all add: Meter_def)

lemma integrated_loudness_valid:
  assumes "data \<noteq> []" "numChannels data \<le> 5" "0 < bs * real_of_int r"
    "bs * real_of_int r \<le> real (numSamples data)"
  shows "integrated_loudness (Meter r bs) data =
           Inr (gated_loudness (num_blocks r bs (numSamples data))
                  (block_energies r bs (numSamples data) (k_weighting r data)))"
proof -
  have r: "r \<noteq> 0" and bs: "bs \<noteq> 0" using assms(3) by auto
  have valid: "valid_audio data r bs = Inr ()"
    using assms by (simp add: valid_audio_def)
  have "0 \<le> np_round ((real (numSamples data) / real_of_int r - bs) / (bs * step))"
    by (rule np_round_nonneg, rule blocks_arg_nonneg) (use assms in auto)
  moreover have "bs * step \<noteq> 0" using bs by (simp add: step_def)
  ultimately show ?thesis
    using r valid assms(1)
    by (simp add: integrated_loudness_def measure_blocks_def Let_def Meter_sel
        apply_filters_Meter num_blocks_def block_energies_def)
qed


lemma integrated_loudness_fail:
  assumes "data \<noteq> []"
    and "5 < numChannels data \<or> bs * real_of_int r \<le> 0
           \<or> real (numSamples data) < bs * real_of_int r"
  shows "\<exists>e. integrated_loudness (Meter r bs) data = Inl e"
proof -
  note m = Meter_sel
  show ?thesis
  proof (cases "valid_audio data r bs")
    case (Inl e)
    then show ?thesis by (simp add: integrated_loudness_def measure_blocks_def m)
  next
    case (Inr u)
    then have le: "bs * real_of_int r \<le> 0"
      using assms(2) by (auto simp: valid_audio_def split: if_splits)
    show ?thesis
    proof (cases "r = 0")
      case True
      then show ?thesis
        using Inr assms(1)
        by (simp add: integrated_loudness_def measure_blocks_def m apply_filters_Meter)
    next
      case r: False
      have d: "apply_filters (meter_filters (Meter r bs)) data = Inr (k_weighting r data)"
        using r assms(1) by (simp add: apply_filters_Meter)
      show ?thesis
      proof (cases "bs = 0")
        case True
        then show ?thesis using Inr d r by (simp add: integrated_loudness_def measure_blocks_def m Let_def)
      next
        case bs: False
        have neg: "bs * real_of_int r < 0" using le r bs by (simp add: less_le)
        have "(real (numSamples data) / real_of_int r - bs) / (bs * step) \<le> - 4"
          by (rule blocks_arg_neg) (use neg in auto)
        then have "\<lfloor>(real (numSamples data) / real_of_int r - bs) / (bs * step)\<rfloor> \<le> - 4"
          by (simp add: floor_le_iff)
        then have "np_round ((real (numSamples data) / real_of_int r - bs) / (bs * step)) + 1 < 0"
          using np_round_le [of "(real (numSamples data) / real_of_int r - bs) / (bs * step)"]
          by linarith
        then show ?thesis using Inr d r bs
          by (simp add: integrated_loudness_def measure_blocks_def m Let_def step_def)
      qed
    qed
  qed
qed



section \<open>Silence\<close>

lemma zn_fmul: "zero_or_nan x \<Longrightarrow> zero_or_nan (fmul b x)"
  by (cases b) (auto simp: zero_or_nan_def)

lemma zn_fsquare: "zero_or_nan x \<Longrightarrow> zero_or_nan (fsquare x)"
  by (auto simp: zero_or_nan_def fsquare_def)

lemma zn_fadd: "zero_or_nan x \<Longrightarrow> zero_or_nan y \<Longrightarrow> zero_or_nan (fadd x y)"
  by (auto simp: zero_or_nan_def)

lemma zn_fsub: "zero_or_nan x \<Longrightarrow> zero_or_nan y \<Longrightarrow> zero_or_nan (fsub x y)"
  by (auto simp: zero_or_nan_def fsub_def)

lemma zn_lfilter_loop:
  "zero_or_nan z0 \<Longrightarrow> zero_or_nan z1 \<Longrightarrow> list_all zero_or_nan x \<Longrightarrow>
   list_all zero_or_nan (lfilter_loop b a (z0, z1) x)"
proof (induction x arbitrary: z0 z1)
  case Nil
  then show ?case by simp
next
  case (Cons x xs)
  then show ?case by (simp add: Let_def zn_fadd zn_fsub zn_fmul)
qed

lemma zn_Fin0: "zero_or_nan (Fin 0)"
  by (simp add: zero_or_nan_def)

lemma zn_filter_channel:
  assumes "list_all zero_or_nan c"
  shows "list_all zero_or_nan (filter_channel f c)"
proof -
  have "list_all zero_or_nan (lfilter b a c)" for b a
    unfolding lfilter_def by (rule zn_lfilter_loop [OF zn_Fin0 zn_Fin0 assms])
  then show ?thesis
    by (simp add: filter_channel_def list_all_iff zn_fmul)
qed

lemma zn_k_weighting:
  assumes "list_all (list_all zero_or_nan) data"
  shows "list_all (list_all zero_or_nan) (k_weighting r data)"
proof -
  have "list_all zero_or_nan (filter_channel (pass_filter r) (filter_channel (shelf_filter r) c))"
    if "c \<in> set data" for c
    using that assms by (intro zn_filter_channel) (simp add: list_all_iff)
  then show ?thesis by (simp add: k_weighting_def list_all_iff)
qed

lemma zn_foldl_fadd:
  "zero_or_nan s \<Longrightarrow> list_all zero_or_nan xs \<Longrightarrow> zero_or_nan (foldl fadd s xs)"
  by (induction xs arbitrary: s) (auto simp: zn_fadd)

lemma zn_np_sum: "list_all zero_or_nan xs \<Longrightarrow> zero_or_nan (np_sum xs)"
  unfolding np_sum_def by (rule zn_foldl_fadd [OF zn_Fin0])

lemma set_py_slice: "set (py_slice xs l u) \<subseteq> set xs"
  by (auto simp: py_slice_def Let_def dest: in_set_takeD in_set_dropD)

lemma zn_block_energy:
  assumes "list_all zero_or_nan c"
  shows "zero_or_nan (block_energy T_g r c j)"
proof -
  have "list_all zero_or_nan (map fsquare (py_slice c l u))" for l u
    using assms set_py_slice [of c l u] by (auto simp: list_all_iff intro: zn_fsquare)
  then show ?thesis
    unfolding block_energy_def Let_def by (intro zn_fmul zn_np_sum)
qed

lemma zn_weighted_sum: "list_all zero_or_nan v \<Longrightarrow> zero_or_nan (weighted_sum v)"
  unfolding weighted_sum_def
  by (rule zn_np_sum) (auto simp: list_all_iff zn_fmul dest: set_zip_rightD)

lemma zn_block_loudness:
  assumes "list_all (\<lambda>zi. j < length zi \<and> list_all zero_or_nan zi) z"
  shows "\<not> fgt (block_loudness z j) Gamma_a" "\<not> fge (block_loudness z j) Gamma_a"
proof -
  have "list_all zero_or_nan (map (\<lambda>zi. zi ! j) z)"
    using assms by (auto simp: list_all_iff)
  then have "zero_or_nan (weighted_sum (map (\<lambda>zi. zi ! j) z))" by (rule zn_weighted_sum)
  then show "\<not> fgt (block_loudness z j) Gamma_a" "\<not> fge (block_loudness z j) Gamma_a"
    by (auto simp: block_loudness_def lufs_def zero_or_nan_def fgt_def fge_def fle_def
        Gamma_a_def signed_inf_def)
qed

lemma np_sum_zeros: "list_all (\<lambda>x. x = Fin 0) xs \<Longrightarrow> np_sum xs = Fin 0"
  unfolding np_sum_def by (induction xs) auto

lemma weighted_sum_zeros: "weighted_sum (map (\<lambda>x. Fin 0) z) = Fin 0"
  unfolding weighted_sum_def
  by (rule np_sum_zeros) (auto simp: list_all_iff dest!: set_zip_rightD)

lemma gated_loudness_all_gated:
  assumes "\<And>j. j < numBlocks \<Longrightarrow> \<not> fgt (block_loudness z j) Gamma_a"
  shows "gated_loudness numBlocks z = NInf"
proof -
  have "filter (\<lambda>j. fgt (map (block_loudness z) [0..<numBlocks] ! j) G
            \<and> fgt (map (block_loudness z) [0..<numBlocks] ! j) Gamma_a) [0..<numBlocks] = []" for G
    using assms by (auto simp: filter_empty_conv)
  then show ?thesis
    by (simp add: gated_loudness_def Let_def gated_mean_def np_mean_def np_sum_def o_def
        weighted_sum_zeros lufs_def signed_inf_def)
qed


lemma integrated_loudness_zero_or_nan:
  assumes "list_all (list_all zero_or_nan) data"
    and "data \<noteq> []" "numChannels data \<le> 5" "0 < bs * real_of_int r"
    "bs * real_of_int r \<le> real (numSamples data)"
  shows "integrated_loudness (Meter r bs) data = Inr NInf"
proof -
  let ?n = "numSamples data"
  let ?z = "block_energies r bs ?n (k_weighting r data)"
  have zn: "list_all (list_all zero_or_nan) (k_weighting r data)"
    by (rule zn_k_weighting [OF assms(1)])
  have "\<not> fgt (block_loudness ?z j) Gamma_a" if "j < num_blocks r bs ?n" for j
  proof (rule zn_block_loudness)
    show "list_all (\<lambda>zi. j < length zi \<and> list_all zero_or_nan zi) ?z"
      using that zn by (auto simp: block_energies_def list_all_iff intro: zn_block_energy)
  qed
  then have "gated_loudness (num_blocks r bs ?n) ?z = NInf"
    by (rule gated_loudness_all_gated)
  then show ?thesis
    using integrated_loudness_valid [OF assms(2-5)] by simp
qed

lemma foldl_fmax2_zeros:
  "list_all (\<lambda>x. x = Fin 0) xs \<Longrightarrow> foldl fmax2 (Fin 0) xs = Fin 0"
  by (induction xs) (auto simp: fmax2_def)

lemma current_peak_silent:
  assumes "is_silent data" "concat data \<noteq> []"
  shows "current_peak data = Fin 0"
proof -
  have "fabs x = Fin 0" if "x \<in> set (concat data)" for x
  proof -
    have "x = Fin 0" using that assms(1) by (auto simp: is_silent_def list_all_iff)
    then show ?thesis by simp
  qed
  then have all: "list_all (\<lambda>x. x = Fin 0) (map fabs (concat data))"
    unfolding list_all_iff by (metis (no_types, lifting) imageE list.set_map)
  obtain x xs where xs: "map fabs (concat data) = x # xs"
    using assms(2) by (cases "map fabs (concat data)") auto
  then have "x = Fin 0" "list_all (\<lambda>x. x = Fin 0) xs" using all by auto
  then show ?thesis using xs by (simp add: current_peak_def foldl_fmax2_zeros)
qed

lemma peak_gain_zero: "peak_gain (Fin 0) target = PInf"
  by (simp add: peak_gain_def signed_inf_def)

lemma fmul_NaN_right: "fmul g NaN = NaN"
  by (cases g) auto

lemma scale_PInf_silent:
  assumes "is_silent data"
  shows "scale PInf data = all_nan data"
proof -
  have "fmul PInf x = NaN" if "c \<in> set data" "x \<in> set c" for c x
  proof -
    have "x = Fin 0" using that assms by (auto simp: is_silent_def list_all_iff)
    then show ?thesis by simp
  qed
  then have "map (fmul PInf) c = map (\<lambda>x. NaN) c" if "c \<in> set data" for c
    using that by (intro map_cong) auto
  then show ?thesis by (simp add: scale_def all_nan_def)
qed

lemma loudness_gain_NInf: "loudness_gain NInf target = PInf"
  by (simp add: loudness_gain_def fsub_def signed_inf_def)

lemma scale_all_nan: "scale g (all_nan data) = all_nan data"
  by (simp add: scale_def all_nan_def fmul_NaN_right o_def)

lemma zn_all_nan: "list_all (list_all zero_or_nan) (all_nan data)"
  by (simp add: all_nan_def list_all_iff zero_or_nan_def)

lemma shape_all_nan:
  "numChannels (all_nan data) = numChannels data" "numSamples (all_nan data) = numSamples data"
  "(all_nan data = []) = (data = [])" "(concat (all_nan data) = []) = (concat data = [])"
  by (auto simp: all_nan_def numChannels_def numSamples_def split: list.splits)

lemma silent_facts:
  assumes "is_silent audio" "concat audio \<noteq> []" "numChannels audio \<le> 5"
    "0 < bs * real_of_int r" "bs * real_of_int r \<le> real (numSamples audio)"
  shows "normalize_peak audio peak = Inr (all_nan audio)"
    and "integrated_loudness (Meter r bs) (all_nan audio) = Inr NInf"
    and "loudness_norm audio r peak loudness bs = Inr (all_nan audio)"
proof -
  have ne: "audio \<noteq> []" using assms(2) by auto
  show p: "normalize_peak audio peak = Inr (all_nan audio)"
    using assms(1,2)
    by (simp add: normalize_peak_eq current_peak_silent peak_gain_zero scale_PInf_silent
        del: concat_eq_Nil_conv)
  show m: "integrated_loudness (Meter r bs) (all_nan audio) = Inr NInf"
    by (rule integrated_loudness_zero_or_nan [OF zn_all_nan])
       (use assms ne in \<open>simp_all add: shape_all_nan\<close>)
  show "loudness_norm audio r peak loudness bs = Inr (all_nan audio)"
    using assms(2)
    by (simp add: loudness_norm_def p m normalize_loudness_eq shape_all_nan scale_all_nan
        del: concat_eq_Nil_conv)
qed

lemma numSamples_replicate: "0 < C \<Longrightarrow> numSamples (replicate C c) = length c"
  by (cases C) (auto simp: numSamples_def)

text \<open>
  Claim C2, as amended.  For an all-zero array that the meter accepts (not empty, at most
  five channels, at least one block long), the peak stage divides by the peak 0: its gain
  is plus infinity and every sample becomes infinity times zero, a NaN.  The integrated
  loudness measured on that array is minus infinity, the loudness gain is plus infinity,
  and \<^verbatim>\<open>loudness_norm\<close> returns the array of the input's shape whose samples are all NaN.
\<close>

theorem silence_gives_nan:
  assumes "is_silent audio" "concat audio \<noteq> []" "numChannels audio \<le> 5"
    "0 < bs * real_of_int r" "bs * real_of_int r \<le> real (numSamples audio)"
  shows "peak_gain (current_peak audio) peak = PInf
    \<and> normalize_peak audio peak = Inr (all_nan audio)
    \<and> integrated_loudness (Meter r bs) (all_nan audio) = Inr NInf
    \<and> loudness_gain NInf loudness = PInf
    \<and> loudness_norm audio r peak loudness bs = Inr (all_nan audio)"
  using silent_facts [OF assms] current_peak_silent [OF assms(1,2)]
  by (simp add: peak_gain_zero loudness_gain_NInf)

theorem silence_gives_nan_witness:
  "is_silent (replicate 2 (replicate 19200 (Fin 0)))
   \<and> concat (replicate 2 (replicate 19200 (Fin 0))) \<noteq> []
   \<and> numChannels (replicate 2 (replicate 19200 (Fin 0))) \<le> 5
   \<and> 0 < 0.4 * real_of_int 48000
   \<and> 0.4 * real_of_int 48000 \<le> real (numSamples (replicate 2 (replicate 19200 (Fin 0))))
   \<and> loudness_norm (replicate 2 (replicate 19200 (Fin 0))) 48000 (- 1) (- 23) 0.4
       = Inr (replicate 2 (replicate 19200 NaN))"
  using silence_gives_nan [of "replicate 2 (replicate 19200 (Fin 0))" "0.4" 48000 "- 1" "- 23"]
  by (simp add: is_silent_def numChannels_def numSamples_replicate all_nan_def list_all_iff)

text \<open>
  The claim as stated fails: 0.4 s of mono silence at 48 kHz comes back as 19200 NaN
  samples, not as zeros.
\<close>

theorem silence_is_not_preserved:
  "loudness_norm [replicate 19200 (Fin 0)] 48000 (- 1) (- 23) 0.4 = Inr [replicate 19200 NaN]"
  using silent_facts(3) [of "[replicate 19200 (Fin 0)]" "0.4" 48000 "- 1" "- 23"]
  by (simp add: is_silent_def numChannels_def numSamples_def all_nan_def list_all_iff)

section \<open>Invalid parameters\<close>

lemma snd_loudness_norm_trace:
  "snd (loudness_norm_trace audio r peak loudness bs) = loudness_norm audio r peak loudness bs"
  by (simp add: loudness_norm_trace_def loudness_norm_def split: sum.splits)

lemma trace_invalid:
  assumes "bs * real_of_int r \<le> 0" "concat audio \<noteq> []"
  shows "\<exists>e. loudness_norm_trace audio r peak loudness bs =
           ([PeakNormalized (scale (peak_gain (current_peak audio) peak) audio)], Inl e)"
proof -
  let ?a = "scale (peak_gain (current_peak audio) peak) audio"
  have "?a \<noteq> []" using assms(2) by (auto simp: scale_def)
  then obtain e where "integrated_loudness (Meter r bs) ?a = Inl e"
    using integrated_loudness_fail [of ?a bs r] assms(1) by auto
  then show ?thesis
    using assms(2) by (simp add: loudness_norm_trace_def normalize_peak_eq del: concat_eq_Nil_conv)
qed

lemma trace_empty:
  "concat audio = [] \<Longrightarrow> loudness_norm_trace audio r peak loudness bs = ([], Inl ValueError)"
  by (simp add: loudness_norm_trace_def normalize_peak_eq del: concat_eq_Nil_conv)

text \<open>
  Claim C4, as amended.  When block duration times sample rate is not positive (a zero
  parameter, or exactly one negative one), \<^verbatim>\<open>loudness_norm\<close> raises and returns no array.
  It does not raise before computing on the samples: for a non-empty array the peak
  normalization has completed, with its gain applied to a new array, and the meter
  raises; for an empty array the peak normalization itself raises.
\<close>

theorem invalid_parameters_raise_after_peak:
  assumes "bs * real_of_int r \<le> 0"
  shows "(\<exists>e. loudness_norm audio r peak loudness bs = Inl e)
    \<and> (concat audio \<noteq> [] \<longrightarrow>
         (\<exists>e. loudness_norm_trace audio r peak loudness bs =
            ([PeakNormalized (scale (peak_gain (current_peak audio) peak) audio)], Inl e)))
    \<and> (concat audio = [] \<longrightarrow>
         loudness_norm_trace audio r peak loudness bs = ([], Inl ValueError))"
proof (cases "concat audio = []")
  case True
  have t: "loudness_norm_trace audio r peak loudness bs = ([], Inl ValueError)"
    by (rule trace_empty [OF True])
  have "loudness_norm audio r peak loudness bs = Inl ValueError"
    using snd_loudness_norm_trace [of audio r peak loudness bs] by (simp add: t)
  then show ?thesis using True t by (simp del: concat_eq_Nil_conv)
next
  case False
  obtain e where t: "loudness_norm_trace audio r peak loudness bs =
      ([PeakNormalized (scale (peak_gain (current_peak audio) peak) audio)], Inl e)"
    using trace_invalid [OF assms False] by blast
  have "loudness_norm audio r peak loudness bs = Inl e"
    using snd_loudness_norm_trace [of audio r peak loudness bs] by (simp add: t)
  then show ?thesis using False t by (simp del: concat_eq_Nil_conv)
qed

theorem invalid_parameters_raise_after_peak_witness:
  "0.4 * real_of_int 0 \<le> 0
   \<and> (\<exists>e. loudness_norm [[Fin (1 / 2), Fin (- (1 / 4))]] 0 0 (- 23) 0.4 = Inl e)"
  using invalid_parameters_raise_after_peak [of "0.4" 0 "[[Fin (1 / 2), Fin (- (1 / 4))]]" 0 "- 23"]
  by simp

text \<open>
  The claim as stated fails: with a sample rate of 0 the peak stage has run, and applied
  its gain of 2 to the samples, before the meter raises.
\<close>

theorem peak_stage_runs_before_failure:
  "loudness_norm_trace [[Fin (1 / 2), Fin (- (1 / 4))]] 0 0 (- 23) 0.4
     = ([PeakNormalized [[Fin 1, Fin (- (1 / 2))]]], Inl ZeroDivisionError)"
  by (simp add: loudness_norm_trace_def normalize_peak_eq current_peak_def fmax2_def
      peak_gain_def scale_def integrated_loudness_def valid_audio_def Meter_sel
      numChannels_def numSamples_def apply_filters_Meter)

section \<open>The filter coefficients at 48 kHz\<close>

lemma cos_lower: "1 - x\<^sup>2 / 2 \<le> cos x" for x :: real
proof -
  have "\<bar>sin (x / 2)\<bar> \<le> \<bar>x / 2\<bar>" by (rule abs_sin_x_le_abs_x)
  then have "(sin (x / 2))\<^sup>2 \<le> (x / 2)\<^sup>2"
    by (metis abs_le_square_iff)
  moreover have "cos x = 1 - 2 * (sin (x / 2))\<^sup>2"
    using cos_double_sin [of "x / 2"] by simp
  ultimately show ?thesis by (simp add: power2_eq_square)
qed

lemma ten_tenth_bounds: "5 / 4 \<le> (10::real) powr (1 / 10)" "(10::real) powr (1 / 10) \<le> 63 / 50"
proof -
  let ?A = "(10::real) powr (1 / 10)"
  have pos: "0 < ?A" by simp
  have pw: "?A ^ 10 = 10"
    using powr_realpow [OF pos, of 10] by (simp add: powr_powr)
  show "5 / 4 \<le> ?A"
  proof (rule ccontr)
    assume "\<not> 5 / 4 \<le> ?A"
    then have "?A < 5 / 4" by simp
    then have "?A ^ 10 < (5 / 4) ^ 10" using pos by (intro power_strict_mono) auto
    moreover have "((5::real) / 4) ^ 10 \<le> 10" by (simp add: power_divide)
    ultimately show False using pw by simp
  qed
  show "?A \<le> 63 / 50"
  proof (rule ccontr)
    assume "\<not> ?A \<le> 63 / 50"
    then have "63 / 50 < ?A" by simp
    then have "(63 / 50) ^ 10 < ?A ^ 10" by (intro power_strict_mono) auto
    moreover have "10 \<le> ((63::real) / 50) ^ 10" by (simp add: power_divide)
    ultimately show False using pw by simp
  qed
qed


lemma shelf_ratio_bounds:
  fixes A c t :: real
  assumes A: "5 / 4 \<le> A" "A \<le> 63 / 50" and c: "24 / 25 \<le> c" "c \<le> 1"
    and t: "0 \<le> t" "t \<le> 9 / 10"
  defines "b0 \<equiv> A * ((A + 1) + (A - 1) * c + t)"
    and "a0 \<equiv> (A + 1) - (A - 1) * c + t"
  shows "2 \<le> a0" "29 / 20 * a0 \<le> b0" "b0 \<le> 8 / 5 * a0"
proof -
  define m where "m = (A - 1) * c"
  have m_le: "m \<le> A - 1"
    unfolding m_def using A c by (intro mult_left_le) auto
  have m_ge: "(A - 1) * (24 / 25) \<le> m"
    unfolding m_def using A c by (intro mult_left_mono) auto
  define s where "s = A + 1 + m + t"
  have s_pos: "0 \<le> s" unfolding s_def using A t m_ge by simp
  have b0: "b0 = A * s" by (simp add: b0_def s_def m_def)
  have a0: "a0 = A + 1 - m + t" by (simp add: a0_def m_def)
  have up: "A * s \<le> 63 / 50 * s" using A(2) s_pos by (rule mult_right_mono)
  have lo: "5 / 4 * s \<le> A * s" using A(1) s_pos by (rule mult_right_mono)
  show "2 \<le> a0" using a0 m_le t by simp
  show "29 / 20 * a0 \<le> b0"
    using lo A t m_le m_ge unfolding b0 a0 s_def by simp
  show "b0 \<le> 8 / 5 * a0"
    using up A t m_le m_ge unfolding b0 a0 s_def by simp
qed


lemma sqrt2_le: "sqrt 2 \<le> 3 / 2"
proof -
  have "sqrt 2 \<le> sqrt ((3 / 2)\<^sup>2)" by (subst real_sqrt_le_iff) (simp add: power2_eq_square)
  then show ?thesis by simp
qed

lemma shelf_coefficients_48000:
  defines "A \<equiv> (10::real) powr (1 / 10)"
  defines "c \<equiv> cos (pi / 16)"
  defines "t \<equiv> sqrt A * (sin (pi / 16) * sqrt 2)"
  shows "hd (fst (raw_coefficients (shelf_filter 48000))) = A * ((A + 1) + (A - 1) * c + t)"
    and "hd (snd (raw_coefficients (shelf_filter 48000))) = (A + 1) - (A - 1) * c + t"
  by (simp_all add: raw_coefficients_def shelf_filter_def Let_def A_def c_def t_def)

lemma shelf_gain_bounds:
  "2 \<le> hd (snd (raw_coefficients (shelf_filter 48000)))"
  "29 / 20 \<le> stage_gain (shelf_filter 48000)"
  "stage_gain (shelf_filter 48000) \<le> 8 / 5"
proof -
  define A where "A = (10::real) powr (1 / 10)"
  define c where "c = cos (pi / 16)"
  define t where "t = sqrt A * (sin (pi / 16) * sqrt 2)"
  have A: "5 / 4 \<le> A" "A \<le> 63 / 50" unfolding A_def by (rule ten_tenth_bounds)+
  have w: "0 \<le> pi / 16" "pi / 16 \<le> 1 / 4" using pi_less_4 by simp_all
  have "1 - (pi / 16)\<^sup>2 / 2 \<le> c" unfolding c_def by (rule cos_lower)
  moreover have "(pi / 16)\<^sup>2 \<le> (1 / 4)\<^sup>2" using w by (intro power_mono) auto
  ultimately have c: "24 / 25 \<le> c" "c \<le> 1" by (simp_all add: power2_eq_square c_def)
  have s0: "0 \<le> sin (pi / 16)" using w pi_gt_zero by (intro sin_ge_zero) auto
  have s1: "sin (pi / 16) \<le> 1 / 4" using sin_x_le_x [OF w(1)] w(2) by simp
  have sA: "0 \<le> sqrt A" "sqrt A \<le> 2"
  proof -
    show "0 \<le> sqrt A" using A by simp
    have "sqrt A \<le> sqrt 4" using A by (subst real_sqrt_le_iff) simp
    then show "sqrt A \<le> 2" by simp
  qed
  have u0: "0 \<le> sin (pi / 16) * sqrt 2" using s0 by simp
  have "sin (pi / 16) * sqrt 2 \<le> 1 / 4 * (3 / 2)"
    by (rule mult_mono [OF s1 sqrt2_le]) (use s0 in auto)
  then have u: "sin (pi / 16) * sqrt 2 \<le> 3 / 8" by simp
  have "sqrt A * (sin (pi / 16) * sqrt 2) \<le> 2 * (3 / 8)"
    by (rule mult_mono [OF sA(2) u]) (use u0 in auto)
  then have t: "0 \<le> t" "t \<le> 9 / 10"
    using sA(1) u0 by (simp_all add: t_def)
  note B = shelf_ratio_bounds [OF A c t]
  have C: "hd (fst (raw_coefficients (shelf_filter 48000))) = A * ((A + 1) + (A - 1) * c + t)"
    "hd (snd (raw_coefficients (shelf_filter 48000))) = (A + 1) - (A - 1) * c + t"
    unfolding A_def c_def t_def by (fact shelf_coefficients_48000)+
  show a0: "2 \<le> hd (snd (raw_coefficients (shelf_filter 48000)))"
    using B(1) C by simp
  then have pos: "0 < hd (snd (raw_coefficients (shelf_filter 48000)))" by simp
  show "29 / 20 \<le> stage_gain (shelf_filter 48000)"
    unfolding stage_gain_def using B(2) C pos by (simp add: pos_le_divide_eq)
  show "stage_gain (shelf_filter 48000) \<le> 8 / 5"
    unfolding stage_gain_def using B(3) C pos by (simp add: pos_divide_le_eq)
qed


lemma pass_coefficients_48000:
  "hd (fst (raw_coefficients (pass_filter 48000))) = (1 + cos (19 * pi / 12000)) / 2"
  "hd (snd (raw_coefficients (pass_filter 48000))) = 1 + sin (19 * pi / 12000)"
  by (simp_all add: raw_coefficients_def pass_filter_def Let_def)

lemma pass_gain_bounds:
  "1 \<le> hd (snd (raw_coefficients (pass_filter 48000)))"
  "49 / 50 \<le> stage_gain (pass_filter 48000)"
  "stage_gain (pass_filter 48000) \<le> 1"
proof -
  define w where "w = 19 * pi / 12000"
  have w: "0 \<le> w" "w \<le> 1 / 100" using pi_less_4 by (simp_all add: w_def)
  have "1 - w\<^sup>2 / 2 \<le> cos w" by (rule cos_lower)
  moreover have "w\<^sup>2 \<le> (1 / 100)\<^sup>2" using w by (intro power_mono) auto
  ultimately have c: "99 / 100 \<le> cos w" by (simp add: power2_eq_square)
  have "w \<le> pi" using w pi_ge_two by simp
  then have s0: "0 \<le> sin w" using w by (intro sin_ge_zero) auto
  have s1: "sin w \<le> 1 / 100" using sin_x_le_x [OF w(1)] w(2) by simp
  note C = pass_coefficients_48000 [folded w_def]
  show a0: "1 \<le> hd (snd (raw_coefficients (pass_filter 48000)))"
    using C s0 by simp
  then have pos: "0 < hd (snd (raw_coefficients (pass_filter 48000)))" by simp
  show "49 / 50 \<le> stage_gain (pass_filter 48000)"
    unfolding stage_gain_def using C pos c s1 by (simp add: pos_le_divide_eq)
  have "(1 + cos w) / 2 \<le> 1" by simp
  with s0 have "(1 + cos w) / 2 \<le> 1 + sin w" by linarith
  then show "stage_gain (pass_filter 48000) \<le> 1"
    unfolding stage_gain_def using pos by (simp add: pos_divide_le_eq C)
qed

lemma k_gain_bounds: "71 / 50 \<le> k_gain 48000" "k_gain 48000 \<le> 8 / 5"
proof -
  have "29 / 20 * (49 / 50) \<le> stage_gain (shelf_filter 48000) * stage_gain (pass_filter 48000)"
    by (rule mult_mono [OF shelf_gain_bounds(2) pass_gain_bounds(2)])
       (use shelf_gain_bounds(2) in auto)
  then show "71 / 50 \<le> k_gain 48000" by (simp add: k_gain_def)
  have "stage_gain (shelf_filter 48000) * stage_gain (pass_filter 48000) \<le> 8 / 5 * 1"
    by (rule mult_mono [OF shelf_gain_bounds(3) pass_gain_bounds(3)])
       (use pass_gain_bounds(2) in auto)
  then show "k_gain 48000 \<le> 8 / 5" by (simp add: k_gain_def)
qed

section \<open>A click measured by the meter\<close>

lemma lfilter_loop_impulse:
  "lfilter_loop [Fin b0, Fin b1, Fin b2] [Fin a0, Fin a1, Fin a2] (Fin 0, Fin 0)
     (replicate n (Fin 0) @ [Fin v]) = replicate n (Fin 0) @ [Fin (b0 * v)]"
  by (induction n) (simp_all add: Let_def fsub_def)

lemma raw_coefficients_shape:
  "\<exists>b0 b1 b2 a0 a1 a2. raw_coefficients f = ([b0, b1, b2], [a0, a1, a2])"
  by (cases "filt_type f") (simp_all only: raw_coefficients_def Let_def filter_type.case, blast+)

lemma filter_channel_impulse:
  assumes "hd (snd (raw_coefficients f)) \<noteq> 0"
  shows "filter_channel f (replicate n (Fin 0) @ [Fin v]) =
           replicate n (Fin 0) @ [Fin (passband_gain f * (stage_gain f * v))]"
proof -
  obtain b0 b1 b2 a0 a1 a2 where raw: "raw_coefficients f = ([b0, b1, b2], [a0, a1, a2])"
    using raw_coefficients_shape by blast
  have a0: "a0 \<noteq> 0" using assms raw by simp
  have n: "normalized (raw_coefficients f) =
      ([Fin (b0 / a0), Fin (b1 / a0), Fin (b2 / a0)], [Fin 1, Fin (a1 / a0), Fin (a2 / a0)])"
    using a0 by (simp add: normalized_def raw)
  have "lfilter (fst (normalized (raw_coefficients f))) (snd (normalized (raw_coefficients f)))
          (replicate n (Fin 0) @ [Fin v]) = replicate n (Fin 0) @ [Fin (b0 / a0 * v)]"
    by (simp add: n lfilter_def lfilter_loop_impulse)
  then show ?thesis
    by (simp add: filter_channel_def stage_gain_def raw)
qed

lemma k_weighting_impulse:
  "k_weighting 48000 (impulse n v) = impulse n (k_gain 48000 * v)"
proof -
  have 1: "hd (snd (raw_coefficients (shelf_filter 48000))) \<noteq> 0"
    using shelf_gain_bounds(1) by simp
  have 2: "hd (snd (raw_coefficients (pass_filter 48000))) \<noteq> 0"
    using pass_gain_bounds(1) by simp
  have p: "passband_gain (shelf_filter 48000) = 1" "passband_gain (pass_filter 48000) = 1"
    by (simp_all add: shelf_filter_def pass_filter_def)
  show ?thesis
    by (simp add: k_weighting_def impulse_def filter_channel_impulse [OF 1]
        filter_channel_impulse [OF 2] p k_gain_def mult_ac)
qed


lemma np_sum_impulse: "np_sum (replicate n (Fin 0) @ [Fin v]) = Fin v"
proof -
  have "foldl fadd (Fin 0) (replicate n (Fin 0)) = Fin 0" by (induction n) auto
  then show ?thesis by (simp add: np_sum_def)
qed

lemma py_slice_whole: "py_slice xs 0 (int (length xs)) = xs"
  by (simp add: py_slice_def slice_bound_def)

lemma block_energy_impulse:
  "block_energy 0.4 48000 (replicate 19199 (Fin 0) @ [Fin w]) 0 = Fin (w\<^sup>2 / 19200)"
proof -
  let ?ch = "replicate 19199 (Fin 0) @ [Fin w]"
  have len: "int (length ?ch) = 19200" by simp
  have "py_slice ?ch 0 19200 = ?ch" using py_slice_whole [of ?ch] unfolding len .
  moreover have "map fsquare ?ch = replicate 19199 (Fin 0) @ [Fin (w * w)]"
    by (simp add: fsquare_def)
  ultimately show ?thesis
    by (simp add: block_energy_def py_int_def step_def np_sum_impulse power2_eq_square)
qed

lemma weighted_sum_single: "weighted_sum [Fin e] = Fin e"
  by (simp add: weighted_sum_def channel_gains_def np_sum_def)

lemma lufs_Fin: "0 < e \<Longrightarrow> lufs (Fin e) = Fin (- 0.691 + 10 * log 10 e)"
  by (simp add: lufs_def)

lemma gated_loudness_single:
  assumes "0 < e"
  shows "gated_loudness 1 [[Fin e]] =
           (if - 70 < - 0.691 + 10 * log 10 e then Fin (- 0.691 + 10 * log 10 e) else NInf)"
proof -
  let ?L = "- 0.691 + 10 * log 10 e"
  have bl: "block_loudness [[Fin e]] 0 = Fin ?L"
    by (simp add: block_loudness_def weighted_sum_single lufs_Fin [OF assms])
  show ?thesis
  proof (cases "- 70 < ?L")
    case True
    then show ?thesis
      using assms
      by (simp add: gated_loudness_def Let_def bl fge_def fle_def fgt_def Gamma_a_def
          gated_mean_def np_mean_def np_sum_def weighted_sum_single lufs_Fin fsub_def)
  next
    case False
    have "\<not> fgt (block_loudness [[Fin e]] j) Gamma_a" if "j < 1" for j
      using that False by (simp add: bl fgt_def Gamma_a_def)
    then have "gated_loudness 1 [[Fin e]] = NInf" by (rule gated_loudness_all_gated)
    then show ?thesis using False by simp
  qed
qed

lemma shape_impulse:
  "impulse n v \<noteq> []" "numChannels (impulse n v) = 1" "numSamples (impulse n v) = Suc n"
  "concat (impulse n v) \<noteq> []"
  by (simp_all add: impulse_def numChannels_def numSamples_def)

lemma np_round_0: "np_round 0 = 0"
  by (simp add: np_round_def)

lemma measure_impulse:
  assumes "v \<noteq> 0"
  shows "integrated_loudness (Meter 48000 0.4) (impulse 19199 v) =
     Inr (if - 70 < - 0.691 + 10 * log 10 ((k_gain 48000 * v)\<^sup>2 / 19200)
          then Fin (- 0.691 + 10 * log 10 ((k_gain 48000 * v)\<^sup>2 / 19200)) else NInf)"
proof -
  have k: "k_gain 48000 \<noteq> 0" using k_gain_bounds(1) by auto
  then have e: "0 < (k_gain 48000 * v)\<^sup>2 / 19200" using assms by simp
  have nb: "num_blocks 48000 0.4 (Suc 19199) = 1"
    by (simp add: num_blocks_def np_round_0)
  have be: "block_energies 48000 0.4 (Suc 19199) (impulse 19199 w) = [[Fin (w\<^sup>2 / 19200)]]" for w
  proof -
    have u: "[0..<1] = [0::nat]" by simp
    show ?thesis
      unfolding block_energies_def nb impulse_def u
      by (simp only: list.map block_energy_impulse)
  qed
  have "integrated_loudness (Meter 48000 0.4) (impulse 19199 v) =
      Inr (gated_loudness (num_blocks 48000 0.4 (numSamples (impulse 19199 v)))
        (block_energies 48000 0.4 (numSamples (impulse 19199 v))
           (k_weighting 48000 (impulse 19199 v))))"
    by (rule integrated_loudness_valid) (simp_all add: shape_impulse)
  then show ?thesis
    by (simp only: shape_impulse nb be k_weighting_impulse gated_loudness_single [OF e])
qed

section \<open>A click through both normalization paths\<close>

lemma foldl_fmax2_impulse:
  "0 \<le> a \<Longrightarrow> foldl fmax2 (Fin 0) (replicate m (Fin 0) @ [Fin a]) = Fin a"
  by (induction m) (auto simp: fmax2_def)

lemma current_peak_impulse: "current_peak (impulse n a) = Fin \<bar>a\<bar>"
proof (cases n)
  case 0
  then show ?thesis by (simp add: current_peak_def impulse_def)
next
  case (Suc m)
  then show ?thesis
    using foldl_fmax2_impulse [of "\<bar>a\<bar>" m] by (simp add: current_peak_def impulse_def)
qed

lemma scale_impulse: "scale (Fin g) (impulse n a) = impulse n (g * a)"
  by (simp add: scale_def impulse_def)

lemma normalize_peak_impulse:
  assumes "0 < a"
  shows "normalize_peak (impulse n a) p = Inr (impulse n (10 powr (p / 20)))"
  using assms
  by (simp add: normalize_peak_eq shape_impulse current_peak_impulse peak_gain_def scale_impulse
      del: concat_eq_Nil_conv)

lemma loudness_gain_Fin: "loudness_gain (Fin L) l = Fin (10 powr ((l - L) / 20))"
  by (simp add: loudness_gain_def fsub_def)

lemma loudness_norm_impulse:
  assumes "0 < a" "- 70 < click_lufs (10 powr (p / 20))"
  shows "loudness_norm (impulse 19199 a) 48000 p l 0.4 =
           Inr (impulse 19199 (10 powr ((l - click_lufs (10 powr (p / 20))) / 20) * 10 powr (p / 20)))"
proof -
  have m: "integrated_loudness (Meter 48000 0.4) (impulse 19199 (10 powr (p / 20))) =
      Inr (Fin (click_lufs (10 powr (p / 20))))"
    using measure_impulse [of "10 powr (p / 20)"] assms(2) by (simp add: click_lufs_def)
  show ?thesis
    by (simp only: loudness_norm_def normalize_peak_impulse [OF assms(1)] m sum.case
        normalize_loudness_eq shape_impulse if_False loudness_gain_Fin scale_impulse)
qed

lemma loudness_norm_file_impulse:
  assumes "0 < a" "- 70 < click_lufs a"
  shows "loudness_norm_file (impulse 19199 a) 48000 p l bs = Inr (impulse 19199 (10 powr (p / 20)))"
proof -
  have m: "integrated_loudness (Meter 48000 0.4) (impulse 19199 a) = Inr (Fin (click_lufs a))"
    using measure_impulse [of a] assms by (simp add: click_lufs_def)
  have g: "0 < 10 powr ((l - click_lufs a) / 20) * a" using assms(1) by simp
  show ?thesis
    by (simp only: loudness_norm_file_def m sum.case normalize_loudness_eq shape_impulse if_False
        loudness_gain_Fin scale_impulse normalize_peak_impulse [OF g])
qed


lemma ten_powr_ratio_pow:
  assumes "0 < n"
  shows "((10::real) powr (real m / real n)) ^ n = 10 ^ m"
proof -
  have "((10::real) powr (real m / real n)) ^ n = (10 powr (real m / real n)) powr real n"
    by (simp add: powr_realpow)
  also have "\<dots> = 10 powr real m" using assms by (simp add: powr_powr)
  also have "\<dots> = 10 ^ m" by (simp add: powr_realpow)
  finally show ?thesis .
qed

lemma ten_powr_ge:
  fixes q :: real
  assumes "0 < n" "0 \<le> q" "q ^ n \<le> 10 ^ m"
  shows "q \<le> 10 powr (real m / real n)"
proof (rule ccontr)
  assume "\<not> q \<le> 10 powr (real m / real n)"
  then have "10 powr (real m / real n) < q" by simp
  then have "(10 powr (real m / real n)) ^ n < q ^ n"
    using assms(1) by (intro power_strict_mono) auto
  then show False using assms(3) ten_powr_ratio_pow [OF assms(1), of m] by simp
qed

lemma ten_powr_le:
  fixes q :: real
  assumes "0 < n" "0 \<le> q" "10 ^ m \<le> q ^ n"
  shows "10 powr (real m / real n) \<le> q"
proof (rule ccontr)
  assume "\<not> 10 powr (real m / real n) \<le> q"
  then have "q < 10 powr (real m / real n)" by simp
  then have "q ^ n < (10 powr (real m / real n)) ^ n"
    using assms(1,2) by (intro power_strict_mono) auto
  then show False using assms(3) ten_powr_ratio_pow [OF assms(1), of m] by simp
qed

lemma peak_target_bounds: "4 / 5 \<le> (10::real) powr (- 1 / 20)" "(10::real) powr (- 1 / 20) \<le> 1"
proof -
  have "(10::real) powr (real 1 / real 20) \<le> 5 / 4"
    by (rule ten_powr_le) (simp_all add: power_divide)
  then have u: "(10::real) powr (1 / 20) \<le> 5 / 4" by simp
  have eq: "(10::real) powr (- (1 / 20)) = inverse (10 powr (1 / 20))"
    by (rule powr_minus)
  have "inverse (5 / 4) \<le> inverse ((10::real) powr (1 / 20))"
    using u by (intro le_imp_inverse_le) auto
  then show "4 / 5 \<le> (10::real) powr (- 1 / 20)" by (simp add: eq)
  have "(10::real) powr (- 1 / 20) \<le> 10 powr 0" by (subst powr_le_cancel_iff) auto
  then show "(10::real) powr (- 1 / 20) \<le> 1" by simp
qed

lemma click_lufs_le:
  assumes "v \<noteq> 0" "(k_gain 48000 * v)\<^sup>2 / 19200 \<le> 10 powr b"
  shows "click_lufs v \<le> - 0.691 + 10 * b"
proof -
  have k: "k_gain 48000 \<noteq> 0" using k_gain_bounds(1) by auto
  then have e: "0 < (k_gain 48000 * v)\<^sup>2 / 19200" using assms(1) by simp
  have "log 10 ((k_gain 48000 * v)\<^sup>2 / 19200) \<le> log 10 (10 powr b)"
    using e assms(2) by (subst log_le_cancel_iff) auto
  then show ?thesis by (simp add: click_lufs_def)
qed

lemma click_lufs_ge:
  assumes "10 powr b \<le> (k_gain 48000 * v)\<^sup>2 / 19200"
  shows "- 0.691 + 10 * b \<le> click_lufs v"
proof -
  have "0 < (10::real) powr b" by simp
  then have e: "0 < (k_gain 48000 * v)\<^sup>2 / 19200" using assms by linarith
  have "log 10 (10 powr b) \<le> log 10 ((k_gain 48000 * v)\<^sup>2 / 19200)"
    using e assms by (subst log_le_cancel_iff) auto
  then show ?thesis by (simp add: click_lufs_def)
qed


lemma ten_powr_neg6: "(10::real) powr (- 6) = 1 / 1000000"
  by (simp add: powr_minus_divide)

lemma ten_powr_neg_7_2: "1 / 3163 \<le> (10::real) powr (- (7 / 2))"
proof -
  have "(10::real) powr (real 7 / real 2) \<le> 3163"
    by (rule ten_powr_le) simp_all
  then have "(10::real) powr (7 / 2) \<le> 3163" by simp
  then have "inverse 3163 \<le> inverse ((10::real) powr (7 / 2))"
    by (intro le_imp_inverse_le) auto
  then show ?thesis by (simp add: powr_minus [of "10::real" "7 / 2"])
qed

lemma square_bounds:
  fixes x :: real
  assumes "a \<le> x" "x \<le> b" "0 \<le> a"
  shows "a\<^sup>2 \<le> x\<^sup>2" "x\<^sup>2 \<le> b\<^sup>2"
  using assms by (auto intro!: power_mono)

lemma default_click_lufs:
  "- 70 < click_lufs (10 powr (- 1 / 20))" "click_lufs (10 powr (- 1 / 20)) \<le> - 35.691"
proof -
  define P :: real where "P = 10 powr (- 1 / 20)"
  define x where "x = k_gain 48000 * P"
  have P: "4 / 5 \<le> P" "P \<le> 1" unfolding P_def by (rule peak_target_bounds)+
  have "71 / 50 * (4 / 5) \<le> k_gain 48000 * P"
    by (rule mult_mono [OF k_gain_bounds(1) P(1)]) (use k_gain_bounds(1) in auto)
  moreover have "k_gain 48000 * P \<le> 8 / 5 * 1"
    by (rule mult_mono [OF k_gain_bounds(2) P(2)]) (use P(1) in auto)
  ultimately have x: "142 / 125 \<le> x" "x \<le> 8 / 5" by (simp_all add: x_def)
  have sq: "(142 / 125)\<^sup>2 \<le> x\<^sup>2" "x\<^sup>2 \<le> (8 / 5)\<^sup>2"
    using square_bounds [OF x] by simp_all
  have lo: "10 powr (- 6) \<le> x\<^sup>2 / 19200"
    using sq(1) by (simp add: ten_powr_neg6 power2_eq_square)
  have "x\<^sup>2 / 19200 \<le> 1 / 3163" using sq(2) by (simp add: power2_eq_square)
  then have hi: "x\<^sup>2 / 19200 \<le> 10 powr (- (7 / 2))"
    using ten_powr_neg_7_2 by linarith
  have "P \<noteq> 0" using P by auto
  from click_lufs_ge [of "- 6" P] lo have "- 0.691 + 10 * (- 6) \<le> click_lufs P"
    by (simp add: x_def)
  then show "- 70 < click_lufs (10 powr (- 1 / 20))" by (simp add: P_def)
  from click_lufs_le [OF \<open>P \<noteq> 0\<close>, of "- (7 / 2)"] hi
  have "click_lufs P \<le> - 0.691 + 10 * (- (7 / 2))" by (simp add: x_def)
  then show "click_lufs (10 powr (- 1 / 20)) \<le> - 35.691" by (simp add: P_def)
qed

lemma unit_click_lufs: "- 70 < click_lufs 1"
proof -
  have sq: "(71 / 50)\<^sup>2 \<le> (k_gain 48000)\<^sup>2"
    using square_bounds(1) [OF k_gain_bounds] by simp
  have "10 powr (- 6) \<le> (k_gain 48000 * 1)\<^sup>2 / 19200"
    using sq by (simp add: ten_powr_neg6 power2_eq_square)
  from click_lufs_ge [OF this] show ?thesis by simp
qed

lemma default_click_sample:
  "3 \<le> 10 powr ((- 23 - click_lufs (10 powr (- 1 / 20))) / 20) * 10 powr (- 1 / 20)"
proof -
  have "(39 / 10 :: real) \<le> 10 powr (real 3 / real 5)"
    by (rule ten_powr_ge) (simp_all add: power_divide)
  then have a: "(39 / 10 :: real) \<le> 10 powr (3 / 5)" by simp
  have "(3 / 5 :: real) \<le> (- 23 - click_lufs (10 powr (- 1 / 20))) / 20"
    using default_click_lufs(2) by simp
  then have "(10::real) powr (3 / 5) \<le> 10 powr ((- 23 - click_lufs (10 powr (- 1 / 20))) / 20)"
    by (subst powr_le_cancel_iff) auto
  then have g: "39 / 10 \<le> 10 powr ((- 23 - click_lufs (10 powr (- 1 / 20))) / 20)"
    using a by linarith
  have "39 / 10 * (4 / 5) \<le>
      10 powr ((- 23 - click_lufs (10 powr (- 1 / 20))) / 20) * 10 powr (- 1 / 20)"
    by (rule mult_mono [OF g peak_target_bounds(1)]) auto
  then show ?thesis by simp
qed

section \<open>The gain that is applied\<close>

lemma fabs_fmul: "0 < g \<Longrightarrow> fabs (fmul (Fin g) x) = fmul (Fin g) (fabs x)"
  by (cases x) (auto simp: signed_inf_def abs_mult)

lemma flt_fmul: "0 < g \<Longrightarrow> flt (fmul (Fin g) x) (fmul (Fin g) y) = flt x y"
  by (cases x; cases y) (auto simp: signed_inf_def)

lemma fmul_eq_NaN: "0 < g \<Longrightarrow> fmul (Fin g) x = NaN \<longleftrightarrow> x = NaN"
  by (cases x) (auto simp: signed_inf_def)

lemma fmax2_fmul:
  "0 < g \<Longrightarrow> fmax2 (fmul (Fin g) x) (fmul (Fin g) y) = fmul (Fin g) (fmax2 x y)"
  by (simp add: fmax2_def flt_fmul fmul_eq_NaN)

lemma foldl_fmax2_fmul:
  "0 < g \<Longrightarrow>
   foldl fmax2 (fmul (Fin g) x) (map (fmul (Fin g)) ys) = fmul (Fin g) (foldl fmax2 x ys)"
  by (induction ys arbitrary: x) (simp_all add: fmax2_fmul)

lemma current_peak_scale:
  assumes "0 < g"
  shows "current_peak (scale (Fin g) data) = fmul (Fin g) (current_peak data)"
proof -
  have c: "map fabs (concat (scale (Fin g) data)) = map (fmul (Fin g)) (map fabs (concat data))"
    using assms by (simp add: scale_def map_concat o_def fabs_fmul)
  have "(case map (fmul (Fin g)) xs of [] \<Rightarrow> NaN | x # ys \<Rightarrow> foldl fmax2 x ys) =
      fmul (Fin g) (case xs of [] \<Rightarrow> NaN | x # ys \<Rightarrow> foldl fmax2 x ys)" for xs
    by (cases xs) (simp_all add: foldl_fmax2_fmul [OF assms])
  then show ?thesis
    unfolding current_peak_def c .
qed

lemma fmul_fmul: "0 < a \<Longrightarrow> 0 < b \<Longrightarrow> fmul (Fin a) (fmul (Fin b) x) = fmul (Fin (a * b)) x"
  by (cases x) (auto simp: signed_inf_def zero_less_mult_iff mult_less_0_iff)

lemma scale_scale:
  "0 < a \<Longrightarrow> 0 < b \<Longrightarrow> scale (Fin a) (scale (Fin b) data) = scale (Fin (a * b)) data"
  by (simp add: scale_def o_def fmul_fmul)

lemma current_peak_Fin_nonempty: "current_peak data = Fin m \<Longrightarrow> concat data \<noteq> []"
  by (cases "concat data") (auto simp: current_peak_def simp del: concat_eq_Nil_conv)

lemma loudness_norm_finite:
  assumes "current_peak audio = Fin m" "0 < m"
    and "measured_loudness audio r peak bs = Inr (Fin x)"
  shows "loudness_norm audio r peak loudness bs =
           Inr (scale (Fin (10 powr ((loudness - x) / 20) * (10 powr (peak / 20) / m))) audio)"
proof -
  have ne: "concat audio \<noteq> []" by (rule current_peak_Fin_nonempty [OF assms(1)])
  let ?a = "scale (Fin (10 powr (peak / 20) / m)) audio"
  have p: "normalize_peak audio peak = Inr ?a"
    using ne assms(1,2) by (simp add: normalize_peak_eq peak_gain_def del: concat_eq_Nil_conv)
  have m: "integrated_loudness (Meter r bs) ?a = Inr (Fin x)"
    using assms(3) by (simp add: measured_loudness_def p)
  have ne': "concat ?a \<noteq> []" using ne by (simp add: concat_scale_Nil del: concat_eq_Nil_conv)
  have g: "0 < 10 powr ((loudness - x) / 20)" "0 < 10 powr (peak / 20) / m"
    using assms(2) by simp_all
  have "normalize_loudness ?a (Fin x) loudness =
      Inr (scale (Fin (10 powr ((loudness - x) / 20) * (10 powr (peak / 20) / m))) audio)"
    using ne' by (simp only: normalize_loudness_eq if_False loudness_gain_Fin scale_scale [OF g])
  then show ?thesis
    by (simp only: loudness_norm_def p m sum.case)
qed


lemma fle_Fin: "fle (Fin a) (Fin b) \<longleftrightarrow> a \<le> b"
  by (auto simp: fle_def)

lemma current_peak_finite_out:
  assumes "current_peak audio = Fin m" "0 < m"
    and "measured_loudness audio r peak bs = Inr (Fin x)"
    and "loudness_norm audio r peak loudness bs = Inr out"
  shows "current_peak out = Fin (10 powr ((loudness - x) / 20) * 10 powr (peak / 20))"
    and "peak_within out (10 powr (peak / 20)) \<longleftrightarrow> loudness \<le> x"
proof -
  let ?g = "10 powr ((loudness - x) / 20) * (10 powr (peak / 20) / m)"
  have out: "out = scale (Fin ?g) audio"
    using loudness_norm_finite [OF assms(1-3), of loudness] assms(4) by simp
  have g: "0 < ?g" using assms(2) by simp
  show cp: "current_peak out = Fin (10 powr ((loudness - x) / 20) * 10 powr (peak / 20))"
    unfolding out current_peak_scale [OF g] assms(1) using assms(2) by simp
  have ne: "concat out \<noteq> []"
    using current_peak_Fin_nonempty [OF cp] .
  have "10 powr ((loudness - x) / 20) * 10 powr (peak / 20) \<le> 10 powr (peak / 20)
      \<longleftrightarrow> 10 powr ((loudness - x) / 20) \<le> (10::real) powr 0"
    by simp
  also have "\<dots> \<longleftrightarrow> (loudness - x) / 20 \<le> 0"
    by (rule powr_le_cancel_iff) simp
  finally show "peak_within out (10 powr (peak / 20)) \<longleftrightarrow> loudness \<le> x"
    using ne by (simp add: peak_within_def cp fle_Fin del: concat_eq_Nil_conv)
qed

lemma impulse_eq: "impulse n a = impulse n b \<longleftrightarrow> a = b"
  by (simp add: impulse_def)

lemma default_click_norm:
  "loudness_norm (impulse 19199 1) 48000 (- 1) (- 23) 0.4 =
     Inr (impulse 19199
       (10 powr ((- 23 - click_lufs (10 powr (- 1 / 20))) / 20) * 10 powr (- 1 / 20)))"
  using loudness_norm_impulse [of 1 "- 1" "- 23"] default_click_lufs(1) by simp

lemma default_click_file:
  "loudness_norm_file (impulse 19199 1) 48000 (- 1) (- 23) bs =
     Inr (impulse 19199 (10 powr (- 1 / 20)))"
  using loudness_norm_file_impulse [of 1 "- 1" "- 23" bs] unit_click_lufs by simp

lemma default_click_spec_gain:
  "\<exists>g. g \<le> 1 \<and> spec_gain (impulse 19199 1) 48000 (- 1) (- 23) 0.4 = Fin g"
proof -
  have m: "integrated_loudness (Meter 48000 0.4) (impulse 19199 1) = Inr (Fin (click_lufs 1))"
    using measure_impulse [of 1] unit_click_lufs by (simp add: click_lufs_def)
  let ?gl = "10 powr ((- 23 - click_lufs 1) / 20)"
  let ?gp = "(10::real) powr (- 1 / 20)"
  have "spec_gain (impulse 19199 1) 48000 (- 1) (- 23) 0.4 =
      fmin2 (Fin ?gl) (Fin ?gp)"
    unfolding spec_gain_def m
    by (simp add: current_peak_impulse loudness_gain_Fin peak_gain_def)
  also have "\<dots> = Fin (if ?gp < ?gl then ?gp else ?gl)" by (simp add: fmin2_def)
  finally have eq: "spec_gain (impulse 19199 1) 48000 (- 1) (- 23) 0.4 =
      Fin (if ?gp < ?gl then ?gp else ?gl)" .
  have "(if ?gp < ?gl then ?gp else ?gl) \<le> ?gp" by simp
  then have "(if ?gp < ?gl then ?gp else ?gl) \<le> 1"
    using peak_target_bounds(2) by (rule order_trans)
  then show ?thesis using eq by blast
qed

text \<open>
  Claim C1, as amended.  Peak normalization is the first stage and the loudness gain,
  applied last, is not clamped.  For every array with a finite peak that is not 0 and whose
  peak-normalized copy measures a finite loudness \<open>x\<close>, the largest absolute sample of the
  returned array is \<open>10^(peak/20)\<close> times the loudness gain \<open>10^((loudness - x)/20)\<close>; it is
  at most \<open>10^(peak/20)\<close> exactly when the measured loudness is at least the target.
\<close>

theorem output_peak_is_scaled_target:
  assumes "current_peak audio = Fin m" "0 < m"
    and "measured_loudness audio r peak bs = Inr (Fin x)"
  shows "\<exists>out. loudness_norm audio r peak loudness bs = Inr out
    \<and> current_peak out = Fin (10 powr ((loudness - x) / 20) * 10 powr (peak / 20))
    \<and> (peak_within out (10 powr (peak / 20)) \<longleftrightarrow> loudness \<le> x)"
proof -
  obtain out where out: "loudness_norm audio r peak loudness bs = Inr out"
    using loudness_norm_finite [OF assms] by blast
  show ?thesis
    using current_peak_finite_out [OF assms out] out by blast
qed

lemma measured_loudness_click:
  "measured_loudness (impulse 19199 1) 48000 (- 1) 0.4 =
     Inr (Fin (click_lufs (10 powr (- 1 / 20))))"
proof -
  have "integrated_loudness (Meter 48000 0.4) (impulse 19199 (10 powr (- 1 / 20))) =
      Inr (Fin (click_lufs (10 powr (- 1 / 20))))"
    using measure_impulse [of "10 powr (- 1 / 20)"] default_click_lufs(1)
    by (simp add: click_lufs_def)
  then show ?thesis
    unfolding measured_loudness_def by (simp add: normalize_peak_impulse)
qed

theorem output_peak_is_scaled_target_witness:
  "current_peak (impulse 19199 1) = Fin 1 \<and> (0::real) < 1
   \<and> measured_loudness (impulse 19199 1) 48000 (- 1) 0.4
       = Inr (Fin (click_lufs (10 powr (- 1 / 20))))
   \<and> (\<exists>out. loudness_norm (impulse 19199 1) 48000 (- 1) (- 23) 0.4 = Inr out
         \<and> \<not> peak_within out (10 powr (- 1 / 20)))"
proof -
  have h1: "current_peak (impulse 19199 1) = Fin 1" by (simp add: current_peak_impulse)
  have h2: "(0::real) < 1" by simp
  note h3 = measured_loudness_click
  have "\<not> - 23 \<le> click_lufs (10 powr (- 1 / 20))" using default_click_lufs(2) by simp
  then have "\<exists>out. loudness_norm (impulse 19199 1) 48000 (- 1) (- 23) 0.4 = Inr out
         \<and> \<not> peak_within out (10 powr (- 1 / 20))"
    using output_peak_is_scaled_target [OF h1 h2 h3, of "- 23"] by auto
  then show ?thesis using h1 h2 h3 by blast
qed

text \<open>
  The claim as stated fails: with the default parameters, a click of full scale at the end
  of 0.4 s of silence at 48 kHz comes back with a peak above
  \<open>10^(-1/20) + 1\<close>, more than twice the target peak.
\<close>

theorem click_exceeds_peak_target:
  "case loudness_norm (impulse 19199 1) 48000 (- 1) (- 23) 0.4 of
     Inl e \<Rightarrow> False
   | Inr out \<Rightarrow> \<not> peak_within out (10 powr (- 1 / 20) + 1)"
proof -
  let ?v = "10 powr ((- 23 - click_lufs (10 powr (- 1 / 20))) / 20) * 10 powr (- 1 / 20)"
  have "\<not> \<bar>?v\<bar> \<le> 10 powr (- 1 / 20) + 1"
    using default_click_sample peak_target_bounds(2) by linarith
  then have "\<not> peak_within (impulse 19199 ?v) (10 powr (- 1 / 20) + 1)"
    by (simp only: peak_within_def current_peak_impulse fle_Fin) simp
  then show ?thesis by (simp only: default_click_norm sum.case) simp
qed

text \<open>
  Claim C5, as amended.  For every array with a finite peak \<open>m\<close> that is not 0 and whose
  peak-normalized copy measures a finite loudness \<open>x\<close>, \<^verbatim>\<open>loudness_norm\<close> multiplies every
  sample of every channel by one scalar: the product of the peak gain \<open>10^(peak/20) / m\<close>
  and the loudness gain \<open>10^((loudness - x)/20)\<close>, where \<open>x\<close> is measured after the peak
  gain.  The product is not the smaller of the two gains.
\<close>

theorem single_gain_is_product:
  assumes "current_peak audio = Fin m" "0 < m"
    and "measured_loudness audio r peak bs = Inr (Fin x)"
  shows "loudness_norm audio r peak loudness bs =
           Inr (scale (Fin (10 powr ((loudness - x) / 20) * (10 powr (peak / 20) / m))) audio)"
  using assms by (rule loudness_norm_finite)

theorem single_gain_is_product_witness:
  "current_peak (impulse 19199 1) = Fin 1 \<and> (0::real) < 1
   \<and> measured_loudness (impulse 19199 1) 48000 (- 1) 0.4
       = Inr (Fin (click_lufs (10 powr (- 1 / 20))))
   \<and> loudness_norm (impulse 19199 1) 48000 (- 1) (- 23) 0.4 =
       Inr (scale (Fin (10 powr ((- 23 - click_lufs (10 powr (- 1 / 20))) / 20)
                        * (10 powr (- 1 / 20) / 1))) (impulse 19199 1))"
proof -
  have h1: "current_peak (impulse 19199 1) = Fin 1" by (simp add: current_peak_impulse)
  have h2: "(0::real) < 1" by simp
  note h3 = measured_loudness_click
  show ?thesis
    using single_gain_is_product [OF h1 h2 h3, of "- 23"] h1 h2 h3 by blast
qed

text \<open>
  The claim as stated fails: on the click, the gain of the specification is at most 1, and
  the code returns a sample of at least 3.
\<close>

theorem click_gain_is_not_the_minimum:
  "loudness_norm (impulse 19199 1) 48000 (- 1) (- 23) 0.4 \<noteq>
     Inr (scale (spec_gain (impulse 19199 1) 48000 (- 1) (- 23) 0.4) (impulse 19199 1))"
proof -
  obtain g where g: "g \<le> 1" "spec_gain (impulse 19199 1) 48000 (- 1) (- 23) 0.4 = Fin g"
    using default_click_spec_gain by blast
  let ?v = "10 powr ((- 23 - click_lufs (10 powr (- 1 / 20))) / 20) * 10 powr (- 1 / 20)"
  have "?v \<noteq> g * 1" using default_click_sample g(1) by linarith
  then have "impulse 19199 ?v \<noteq> scale (Fin g) (impulse 19199 1)"
    by (simp only: scale_impulse impulse_eq) simp
  then show ?thesis by (simp only: default_click_norm g(2)) simp
qed

text \<open>
  Claim C7.  On the click, with the default parameters, the in-memory path and the
  file-based path return different arrays: the file-based path ends with the peak
  normalization and returns the click at the target peak \<open>10^(-1/20)\<close>; the in-memory
  path ends with the loudness gain and returns a click of at least 3.
\<close>

theorem paths_differ_on_click:
  "loudness_norm (impulse 19199 1) 48000 (- 1) (- 23) 0.4
     \<noteq> loudness_norm_file (impulse 19199 1) 48000 (- 1) (- 23) 0.4
   \<and> loudness_norm_file (impulse 19199 1) 48000 (- 1) (- 23) 0.4
       = Inr (impulse 19199 (10 powr (- 1 / 20)))
   \<and> (\<exists>v. 3 \<le> v
         \<and> loudness_norm (impulse 19199 1) 48000 (- 1) (- 23) 0.4 = Inr (impulse 19199 v))"
proof -
  let ?v = "10 powr ((- 23 - click_lufs (10 powr (- 1 / 20))) / 20) * 10 powr (- 1 / 20)"
  have "?v \<noteq> 10 powr (- 1 / 20)"
    using default_click_sample peak_target_bounds(2) by linarith
  then have "impulse 19199 ?v \<noteq> impulse 19199 (10 powr (- 1 / 20))"
    by (simp only: impulse_eq) simp
  then have "loudness_norm (impulse 19199 1) 48000 (- 1) (- 23) 0.4
     \<noteq> loudness_norm_file (impulse 19199 1) 48000 (- 1) (- 23) 0.4"
    by (simp only: default_click_norm default_click_file) simp
  moreover have "\<exists>v. 3 \<le> v
      \<and> loudness_norm (impulse 19199 1) 48000 (- 1) (- 23) 0.4 = Inr (impulse 19199 v)"
    using default_click_norm default_click_sample by blast
  ultimately show ?thesis using default_click_file [of "0.4"] by blast
qed

section \<open>What makes the call raise\<close>






section \<open>The gating\<close>

lemma gated_loudness_eq:
  "gated_loudness numBlocks z =
     lufs (weighted_sum (map nan_to_num (gated_mean z (surviving_blocks numBlocks z))))"
proof -
  have 1: "filter (\<lambda>j. fge (map (block_loudness z) [0..<numBlocks] ! j) Gamma_a) [0..<numBlocks]
      = absolute_gate numBlocks z"
    unfolding absolute_gate_def by (rule filter_cong) auto
  have 2: "filter (\<lambda>j. fgt (map (block_loudness z) [0..<numBlocks] ! j) G
              \<and> fgt (map (block_loudness z) [0..<numBlocks] ! j) Gamma_a) [0..<numBlocks]
      = filter (\<lambda>j. fgt (block_loudness z j) G \<and> fgt (block_loudness z j) Gamma_a)
          [0..<numBlocks]" for G
    by (rule filter_cong) auto
  show ?thesis
    unfolding gated_loudness_def Let_def 1 2 surviving_blocks_def relative_threshold_def ..
qed









section \<open>The arrays of the caller\<close>

lemma extends_iff: "extends s s' \<longleftrightarrow> length s \<le> length s' \<and> (\<forall>p<length s. s' ! p = s ! p)"
  by (auto simp: extends_def list_all_iff)

lemma extends_refl: "extends s s"
  by (simp add: extends_iff)

lemma extends_trans: "extends s s1 \<Longrightarrow> extends s1 s2 \<Longrightarrow> extends s s2"
  by (auto simp: extends_iff)

lemma extends_append: "extends s (s @ t)"
  by (simp add: extends_iff nth_append)

lemma peak_st_eq:
  "peak_st s data target =
     (case normalize_peak (s ! data) target of
        Inl e \<Rightarrow> (if concat (s ! data) = [] then s else s @ [scale (peak_gain (current_peak (s ! data)) target) (s ! data)], Inl e)
      | Inr out \<Rightarrow> (s @ [out], Inr (length s)))"
proof (cases "concat (s ! data)")
  case Nil
  then show ?thesis
    by (simp add: peak_st_def normalize_peak_def np_max_def del: concat_eq_Nil_conv)
next
  case (Cons x xs)
  then have ne: "concat (s ! data) \<noteq> []" by simp
  have np: "np_max (map fabs (concat (s ! data))) = Inr (current_peak (s ! data))"
    using Cons by (simp add: np_max_def current_peak_def)
  show ?thesis
    unfolding peak_st_def np normalize_peak_eq alloc_def
    using ne by (simp add: warn_clipped_eq concat_scale_Nil del: concat_eq_Nil_conv)
qed

lemma loudness_st_eq:
  "loudness_st s data L target =
     (s @ [scale (loudness_gain L target) (s ! data)],
      case normalize_loudness (s ! data) L target of Inl e \<Rightarrow> Inl e | Inr out \<Rightarrow> Inr (length s))"
  unfolding loudness_st_def alloc_def normalize_loudness_eq
  by (simp add: warn_clipped_eq concat_scale_Nil del: concat_eq_Nil_conv)

lemma stage_st_frame:
  "q < length s \<Longrightarrow> length (fst (stage_st f s q chs)) = length s
     \<and> (\<forall>p. p \<noteq> q \<longrightarrow> fst (stage_st f s q chs) ! p = s ! p)"
proof (induction chs arbitrary: s)
  case Nil
  then show ?case by simp
next
  case (Cons ch chs)
  show ?case
  proof (cases "apply_filter f (s ! q ! ch)")
    case (Inl e)
    then show ?thesis by simp
  next
    case (Inr c)
    let ?s = "s[q := (s ! q)[ch := c]]"
    have "q < length ?s" using Cons.prems by simp
    from Cons.IH [OF this] show ?thesis using Inr by simp
  qed
qed

lemma upt_pre:
  "[length pre..<length pre + length (c # cs)]
     = length pre # [length (pre @ [x])..<length (pre @ [x]) + length cs]"
  by (simp add: upt_conv_Cons del: upt_Suc)

lemma stage_st_value:
  "q < length s \<Longrightarrow> s ! q = pre @ cs \<Longrightarrow>
   snd (stage_st f s q [length pre..<length pre + length cs]) =
     (case apply_stage f cs of Inl e \<Rightarrow> Inl e | Inr cs' \<Rightarrow> Inr ())
   \<and> (\<forall>cs'. apply_stage f cs = Inr cs' \<longrightarrow>
         fst (stage_st f s q [length pre..<length pre + length cs]) = s[q := pre @ cs'])"
proof (induction cs arbitrary: s pre)
  case Nil
  have "s[q := s ! q] = s" by (rule list_update_id)
  then show ?case using Nil by simp
next
  case (Cons c cs)
  note up = upt_pre [of pre c cs c]
  have at: "s ! q ! length pre = c" using Cons.prems by simp
  show ?case
  proof (cases "apply_filter f c")
    case (Inl e)
    then show ?thesis unfolding up using at by simp
  next
    case (Inr c')
    let ?s = "s[q := (s ! q)[length pre := c']]"
    have q: "q < length ?s" using Cons.prems by simp
    have sq: "?s ! q = (pre @ [c']) @ cs" using Cons.prems by simp
    have len: "length (pre @ [c']) = length (pre @ [c])" by simp
    note IH = Cons.IH [OF q sq, unfolded len]
    have st: "stage_st f s q (length pre # [length (pre @ [c])..<length (pre @ [c]) + length cs])
        = stage_st f ?s q [length (pre @ [c])..<length (pre @ [c]) + length cs]"
      using at Inr by simp
    have upd: "?s[q := (pre @ [c']) @ cs'] = s[q := pre @ c' # cs']" for cs'
      by simp
    show ?thesis
    proof (cases "apply_stage f cs")
      case (Inl e)
      then show ?thesis unfolding up st using Inr IH by simp
    next
      case r: (Inr cs')
      then show ?thesis unfolding up st using Inr IH upd by simp
    qed
  qed
qed

lemma stage_st_whole:
  assumes "q < length s"
  shows "snd (stage_st f s q [0..<numChannels (s ! q)]) =
     (case apply_stage f (s ! q) of Inl e \<Rightarrow> Inl e | Inr cs' \<Rightarrow> Inr ())"
    and "apply_stage f (s ! q) = Inr cs' \<Longrightarrow>
     fst (stage_st f s q [0..<numChannels (s ! q)]) = s[q := cs']"
  using stage_st_value [OF assms, of "[]" "s ! q" f] by (simp_all add: numChannels_def)

lemma filters_st_frame:
  "q < length s \<Longrightarrow> length (fst (filters_st fs s q)) = length s
     \<and> (\<forall>p. p \<noteq> q \<longrightarrow> fst (filters_st fs s q) ! p = s ! p)"
proof (induction fs arbitrary: s)
  case Nil
  then show ?case by simp
next
  case (Cons f fs)
  let ?r = "stage_st f s q [0..<numChannels (s ! q)]"
  note fr = stage_st_frame [OF Cons.prems, of f "[0..<numChannels (s ! q)]"]
  show ?case
  proof (cases ?r)
    case (Pair s' res)
    then have s': "s' = fst ?r" by simp
    have fr': "length s' = length s" "\<forall>p. p \<noteq> q \<longrightarrow> s' ! p = s ! p"
      using fr unfolding s' by blast+
    show ?thesis
    proof (cases res)
      case (Inl e)
      then show ?thesis using Pair fr' by simp
    next
      case (Inr ok)
      have "q < length s'" using fr' Cons.prems by simp
      from Cons.IH [OF this] show ?thesis using Pair Inr fr' by simp
    qed
  qed
qed

lemma filters_st_value:
  "q < length s \<Longrightarrow>
   snd (filters_st fs s q) =
     (case apply_filters fs (s ! q) of Inl e \<Rightarrow> Inl e | Inr d \<Rightarrow> Inr ())
   \<and> (\<forall>d. apply_filters fs (s ! q) = Inr d \<longrightarrow> fst (filters_st fs s q) = s[q := d])"
proof (induction fs arbitrary: s)
  case Nil
  have "s[q := s ! q] = s" by (rule list_update_id)
  then show ?case by simp
next
  case (Cons f fs)
  let ?r = "stage_st f s q [0..<numChannels (s ! q)]"
  note w = stage_st_whole [OF Cons.prems, of f]
  show ?case
  proof (cases "apply_stage f (s ! q)")
    case (Inl e)
    then have "snd ?r = Inl e" using w(1) by simp
    then obtain s' where "?r = (s', Inl e)" by (cases ?r) simp
    then show ?thesis using Inl by simp
  next
    case (Inr d)
    have q: "q < length (s[q := d])" using Cons.prems by simp
    have "snd ?r = Inr ()" "fst ?r = s[q := d]" using w(1) w(2) [OF Inr] Inr by simp_all
    then have st: "?r = (s[q := d], Inr ())" by (cases ?r) simp
    have sq: "s[q := d] ! q = d" using Cons.prems by simp
    note IH = Cons.IH [OF q, unfolded sq]
    show ?thesis using IH Inr st by simp
  qed
qed

lemma integrated_loudness_st_value:
  "snd (integrated_loudness_st s m data) = integrated_loudness m (s ! data)"
proof -
  let ?s1 = "s @ [s ! data]"
  let ?r = "filters_st (meter_filters m) ?s1 (length s)"
  have q: "length s < length ?s1" by simp
  have sq: "?s1 ! length s = s ! data" by simp
  note v = filters_st_value [OF q, of "meter_filters m", unfolded sq]
  show ?thesis
  proof (cases "valid_audio (s ! data) (meter_rate m) (meter_block_size m)")
    case (Inl e)
    then show ?thesis
      by (simp add: integrated_loudness_st_def integrated_loudness_def alloc_def)
  next
    case ok: (Inr u)
    show ?thesis
    proof (cases "apply_filters (meter_filters m) (s ! data)")
      case (Inl e)
      then have "snd ?r = Inl e" using v by simp
      then obtain s2 where "?r = (s2, Inl e)" by (cases ?r) simp
      then show ?thesis using ok Inl
        by (simp add: integrated_loudness_st_def integrated_loudness_def alloc_def)
    next
      case (Inr d)
      then have "snd ?r = Inr ()" "fst ?r = ?s1[length s := d]" using v by simp_all
      then have "?r = (?s1[length s := d], Inr ())" by (cases ?r) simp
      then show ?thesis using ok Inr
        by (simp add: integrated_loudness_st_def integrated_loudness_def alloc_def)
    qed
  qed
qed

lemma integrated_loudness_st_frame:
  "extends s (fst (integrated_loudness_st s m data))"
proof -
  let ?s1 = "s @ [s ! data]"
  let ?r = "filters_st (meter_filters m) ?s1 (length s)"
  have q: "length s < length ?s1" by simp
  note fr = filters_st_frame [OF q, of "meter_filters m"]
  have e: "extends s (fst ?r)"
    unfolding extends_iff using fr by (auto simp: nth_append)
  show ?thesis
  proof (cases "valid_audio (s ! data) (meter_rate m) (meter_block_size m)")
    case (Inl e)
    then show ?thesis
      by (simp add: integrated_loudness_st_def alloc_def extends_append)
  next
    case ok: (Inr u)
    obtain s2 res where r: "?r = (s2, res)" by (cases ?r)
    then have "extends s s2" using e by simp
    then show ?thesis using ok r
      by (cases res) (simp_all add: integrated_loudness_st_def alloc_def)
  qed
qed

lemma loudness_norm_st_frame:
  "extends s (fst (loudness_norm_st s audio r peak loudness bs))"
proof -
  obtain s1 r1 where p: "peak_st s audio peak = (s1, r1)" by (cases "peak_st s audio peak")
  have e1: "extends s s1"
    using p unfolding peak_st_eq by (auto simp: extends_append extends_refl split: sum.splits if_splits)
  show ?thesis
  proof (cases r1)
    case (Inl e)
    then show ?thesis using p e1 by (simp add: loudness_norm_st_def)
  next
    case (Inr audio')
    obtain s2 r2 where i: "integrated_loudness_st s1 (Meter r bs) audio' = (s2, r2)"
      by (cases "integrated_loudness_st s1 (Meter r bs) audio'")
    have e2: "extends s1 s2" using integrated_loudness_st_frame [of s1 "Meter r bs" audio'] i by simp
    show ?thesis
    proof (cases r2)
      case (Inl e)
      then show ?thesis using p Inr i extends_trans [OF e1 e2] by (simp add: loudness_norm_st_def)
    next
      case L: (Inr loudness')
      have "extends s2 (fst (loudness_st s2 audio' loudness' loudness))"
        unfolding loudness_st_eq by (simp add: extends_append)
      then have "extends s (fst (loudness_st s2 audio' loudness' loudness))"
        using extends_trans [OF e1 e2] extends_trans by blast
      then show ?thesis using p Inr i L by (simp add: loudness_norm_st_def)
    qed
  qed
qed

lemma loudness_norm_st_value:
  assumes a: "audio < length s"
  shows "case loudness_norm_st s audio r peak loudness bs of
           (s', Inl e) \<Rightarrow> loudness_norm (s ! audio) r peak loudness bs = Inl e
         | (s', Inr out) \<Rightarrow> length s \<le> out \<and> out < length s'
             \<and> loudness_norm (s ! audio) r peak loudness bs = Inr (s' ! out)"
proof (cases "normalize_peak (s ! audio) peak")
  case (Inl e)
  then show ?thesis by (simp add: loudness_norm_st_def peak_st_eq loudness_norm_def)
next
  case (Inr a')
  let ?s1 = "s @ [a']"
  have p: "peak_st s audio peak = (?s1, Inr (length s))" using Inr by (simp add: peak_st_eq)
  have at: "?s1 ! length s = a'" by simp
  obtain s2 r2 where i: "integrated_loudness_st ?s1 (Meter r bs) (length s) = (s2, r2)"
    by (cases "integrated_loudness_st ?s1 (Meter r bs) (length s)")
  have r2: "r2 = integrated_loudness (Meter r bs) a'"
    using integrated_loudness_st_value [of ?s1 "Meter r bs" "length s"] i at by simp
  have e2: "extends ?s1 s2"
    using integrated_loudness_st_frame [of ?s1 "Meter r bs" "length s"] i by simp
  then have s2: "s2 ! length s = a'" "length s < length s2" by (auto simp: extends_iff)
  show ?thesis
  proof (cases r2)
    case (Inl e)
    then have il: "integrated_loudness (Meter r bs) a' = Inl e" using r2 by simp
    show ?thesis using p i Inl Inr il by (simp add: loudness_norm_st_def loudness_norm_def)
  next
    case L: (Inr loudness')
    then have il: "integrated_loudness (Meter r bs) a' = Inr loudness'" using r2 by simp
    show ?thesis
    proof (cases "normalize_loudness a' loudness' loudness")
      case (Inl e)
      then show ?thesis using p i L Inr il s2
        by (simp add: loudness_norm_st_def loudness_norm_def loudness_st_eq)
    next
      case o: (Inr out)
      then have "out = scale (loudness_gain loudness' loudness) a'"
        by (simp add: normalize_loudness_eq split: if_splits)
      then show ?thesis using p i L Inr il s2 o
        by (simp add: loudness_norm_st_def loudness_norm_def loudness_st_eq)
    qed
  qed
qed

text \<open>
  Claim C9.  \<^verbatim>\<open>loudness_norm\<close> does not change its input: called on an array of the store,
  it leaves every array that existed before the call, the input among them, with the
  samples it had; when it returns, the result is an array that did not exist before the
  call, so it is not the input, and it holds the value of \<^verbatim>\<open>loudness_norm\<close>; when it
  raises, it raises the same error.
\<close>

theorem loudness_norm_keeps_input:
  assumes "audio < length s"
  shows "case loudness_norm_st s audio r peak loudness bs of
           (s', res) \<Rightarrow>
             extends s s' \<and> s' ! audio = s ! audio \<and>
             (case res of
                Inl e \<Rightarrow> loudness_norm (s ! audio) r peak loudness bs = Inl e
              | Inr out \<Rightarrow> out \<noteq> audio \<and> length s \<le> out \<and> out < length s'
                  \<and> loudness_norm (s ! audio) r peak loudness bs = Inr (s' ! out))"
proof -
  obtain s' res where c: "loudness_norm_st s audio r peak loudness bs = (s', res)"
    by (cases "loudness_norm_st s audio r peak loudness bs")
  have e: "extends s s'"
    using loudness_norm_st_frame [of s audio r peak loudness bs] c by simp
  then have same: "s' ! audio = s ! audio" using assms by (simp add: extends_iff)
  note v = loudness_norm_st_value [OF assms, of r peak loudness bs, unfolded c]
  show ?thesis
  proof (cases res)
    case (Inl e')
    then show ?thesis using c e same v by simp
  next
    case (Inr out)
    then have "length s \<le> out" using v by simp
    then have "out \<noteq> audio" using assms by simp
    then show ?thesis using c e same v Inr by simp
  qed
qed

theorem loudness_norm_keeps_input_witness:
  "(0 :: nat) < length [impulse 19199 1]
   \<and> (case loudness_norm_st [impulse 19199 1] 0 48000 (- 1) (- 23) 0.4 of
         (s', res) \<Rightarrow>
           s' ! 0 = impulse 19199 1 \<and>
           (case res of
              Inl e \<Rightarrow> False
            | Inr out \<Rightarrow> out \<noteq> 0 \<and>
                s' ! out = impulse 19199
                  (10 powr ((- 23 - click_lufs (10 powr (- 1 / 20))) / 20) * 10 powr (- 1 / 20))))"
proof -
  have h: "(0 :: nat) < length [impulse 19199 1]" by simp
  note T = loudness_norm_keeps_input [OF h, of 48000 "- 1" "- 23" "0.4"]
  obtain s' res where c: "loudness_norm_st [impulse 19199 1] 0 48000 (- 1) (- 23) 0.4 = (s', res)"
    by (cases "loudness_norm_st [impulse 19199 1] 0 48000 (- 1) (- 23) 0.4")
  have n: "[impulse 19199 1] ! 0 = impulse 19199 1" by simp
  note T' = T [unfolded c n default_click_norm prod.case]
  show ?thesis
  proof (cases res)
    case (Inl e)
    then show ?thesis using T' by simp
  next
    case (Inr out)
    then show ?thesis unfolding c prod.case using T' h by simp
  qed
qed

section \<open>A gain before the call\<close>

text \<open>
  Multiplication by a finite positive gain commutes with every operation of the filters
  and of the block energies, also on infinite and NaN values; the loudness of a scaled
  energy is the loudness shifted.
\<close>

lemma fadd_fmul:
  "0 < k \<Longrightarrow> fadd (fmul (Fin k) x) (fmul (Fin k) y) = fmul (Fin k) (fadd x y)"
  by (cases x; cases y) (auto simp: signed_inf_def distrib_left)

lemma fneg_fmul: "0 < k \<Longrightarrow> fneg (fmul (Fin k) x) = fmul (Fin k) (fneg x)"
  by (cases x) (auto simp: signed_inf_def)

lemma fsub_fmul:
  "0 < k \<Longrightarrow> fsub (fmul (Fin k) x) (fmul (Fin k) y) = fmul (Fin k) (fsub x y)"
  by (simp add: fsub_def fneg_fmul fadd_fmul)

lemma fmul_swap: "0 < k \<Longrightarrow> fmul c (fmul (Fin k) x) = fmul (Fin k) (fmul c x)"
  by (cases c; cases x) (auto simp: signed_inf_def zero_less_mult_iff mult_less_0_iff)

lemma lfilter_loop_scale:
  assumes "0 < k"
  shows "lfilter_loop b a (fmul (Fin k) z0, fmul (Fin k) z1) (map (fmul (Fin k)) xs)
       = map (fmul (Fin k)) (lfilter_loop b a (z0, z1) xs)"
proof (induction xs arbitrary: z0 z1)
  case Nil
  then show ?case by simp
next
  case (Cons x xs)
  let ?h = "fmul (Fin k)"
  let ?y = "fadd z0 (fmul (b ! 0) x)"
  let ?z0 = "fsub (fadd z1 (fmul (b ! 1) x)) (fmul (a ! 1) ?y)"
  let ?z1 = "fsub (fmul (b ! 2) x) (fmul (a ! 2) ?y)"
  have y: "fadd (?h z0) (fmul (b ! 0) (?h x)) = ?h ?y"
    by (simp only: fmul_swap [OF assms] fadd_fmul [OF assms])
  have z0: "fsub (fadd (?h z1) (fmul (b ! 1) (?h x))) (fmul (a ! 1) (?h ?y)) = ?h ?z0"
    by (simp only: fmul_swap [OF assms] fadd_fmul [OF assms] fsub_fmul [OF assms])
  have z1: "fsub (fmul (b ! 2) (?h x)) (fmul (a ! 2) (?h ?y)) = ?h ?z1"
    by (simp only: fmul_swap [OF assms] fsub_fmul [OF assms])
  show ?case
    by (simp only: list.map lfilter_loop.simps Let_def y z0 z1 Cons.IH)
qed

lemma lfilter_scale:
  assumes "0 < k"
  shows "lfilter b a (map (fmul (Fin k)) xs) = map (fmul (Fin k)) (lfilter b a xs)"
proof -
  have z: "Fin 0 = fmul (Fin k) (Fin 0)" by simp
  show ?thesis
    unfolding lfilter_def
    by (subst z, subst (2) z, rule lfilter_loop_scale [OF assms])
qed

lemma map_fmul_swap:
  "0 < k \<Longrightarrow> map (fmul c) (map (fmul (Fin k)) xs) = map (fmul (Fin k)) (map (fmul c) xs)"
  by (induction xs) (simp_all add: fmul_swap [of k c])

lemma filter_channel_scale:
  assumes "0 < k"
  shows "filter_channel f (map (fmul (Fin k)) c) = map (fmul (Fin k)) (filter_channel f c)"
  unfolding filter_channel_def lfilter_scale [OF assms] by (rule map_fmul_swap [OF assms])

lemma k_weighting_scale:
  assumes "0 < k"
  shows "k_weighting r (scale (Fin k) data) = scale (Fin k) (k_weighting r data)"
  by (simp add: k_weighting_def scale_def filter_channel_scale [OF assms])

lemma fsquare_fmul: "fsquare (fmul (Fin k) x) = fmul (Fin (k * k)) (fsquare x)"
  by (cases x) (auto simp: fsquare_def signed_inf_def zero_less_mult_iff)

lemma foldl_fadd_fmul:
  "0 < k \<Longrightarrow> foldl fadd (fmul (Fin k) a) (map (fmul (Fin k)) xs) = fmul (Fin k) (foldl fadd a xs)"
  by (induction xs arbitrary: a) (simp_all add: fadd_fmul)

lemma np_sum_fmul:
  assumes "0 < k"
  shows "np_sum (map (fmul (Fin k)) xs) = fmul (Fin k) (np_sum xs)"
  using foldl_fadd_fmul [OF assms, of "Fin 0" xs] by (simp add: np_sum_def)

lemma py_slice_map: "py_slice (map f xs) l u = map f (py_slice xs l u)"
  by (simp add: py_slice_def Let_def take_map drop_map)

lemma block_energy_scale:
  assumes "0 < k"
  shows "block_energy bs r (map (fmul (Fin k)) ch) j = fmul (Fin (k * k)) (block_energy bs r ch j)"
proof -
  have kk: "0 < k * k" using assms by simp
  have sq: "map fsquare (map (fmul (Fin k)) xs) = map (fmul (Fin (k * k))) (map fsquare xs)" for xs
    by (induction xs) (simp_all add: fsquare_fmul)
  show ?thesis
    unfolding block_energy_def Let_def py_slice_map sq np_sum_fmul [OF kk]
    by (rule fmul_swap [OF kk])
qed

lemma block_energies_scale:
  assumes "0 < k"
  shows "block_energies r bs n (scale (Fin k) X)
       = map (map (fmul (Fin (k * k)))) (block_energies r bs n X)"
  by (simp add: block_energies_def scale_def block_energy_scale [OF assms])

lemma weighted_sum_fmul:
  assumes "0 < k"
  shows "weighted_sum (map (fmul (Fin k)) v) = fmul (Fin k) (weighted_sum v)"
proof -
  have "map2 (\<lambda>g x. fmul (Fin g) x) gs (map (fmul (Fin k)) v)
      = map (fmul (Fin k)) (map2 (\<lambda>g x. fmul (Fin g) x) gs v)" for gs
  proof (induction gs arbitrary: v)
    case Nil
    then show ?case by simp
  next
    case (Cons g gs)
    show ?case
    proof (cases v)
      case Nil
      then show ?thesis by simp
    next
      case c: (Cons x xs)
      show ?thesis using Cons.IH [of xs] by (simp add: c fmul_swap [OF assms, of "Fin g"])
    qed
  qed
  then show ?thesis by (simp only: weighted_sum_def np_sum_fmul [OF assms])
qed

lemma lufs_fmul:
  assumes "0 < k"
  shows "lufs (fmul (Fin k) w) = fadd (lufs w) (Fin (10 * log 10 k))"
proof (cases w)
  case (Fin a)
  consider "a = 0" | "a < 0" | "0 < a" by linarith
  then show ?thesis
  proof cases
    case 1
    then show ?thesis using Fin by (simp add: lufs_def signed_inf_def)
  next
    case 2
    then have "k * a < 0" using assms by (simp add: mult_less_0_iff)
    then show ?thesis using Fin 2 assms by (simp add: lufs_def)
  next
    case 3
    then have p: "0 < k * a" using assms by simp
    have l: "log 10 (k * a) = log 10 k + log 10 a"
      using assms 3 by (simp add: log_mult)
    have "lufs (Fin (k * a)) = Fin (- 0.691 + 10 * log 10 (k * a))" by (rule lufs_Fin [OF p(1)])
    moreover have "lufs (Fin a) = Fin (- 0.691 + 10 * log 10 a)" by (rule lufs_Fin [OF 3])
    ultimately show ?thesis using Fin by (simp add: l)
  qed
qed (use assms in \<open>simp_all add: lufs_def signed_inf_def\<close>)

lemma np_mean_fmul:
  assumes "0 < k"
  shows "np_mean (map (fmul (Fin k)) xs) = fmul (Fin k) (np_mean xs)"
proof -
  have "fdiv (fmul (Fin k) s) (Fin (real n)) = fmul (Fin k) (fdiv s (Fin (real n)))" for s n
    using assms by (cases s) (auto simp: signed_inf_def zero_less_mult_iff)
  then show ?thesis by (simp add: np_mean_def np_sum_fmul [OF assms])
qed

lemma fsub_fadd_shift: "fsub (fadd x (Fin d)) (Fin c) = fadd (fsub x (Fin c)) (Fin d)"
  by (cases x) (simp_all add: fsub_def)

lemma fgt_shift: "fgt (fadd x (Fin d)) (fadd y (Fin d)) = fgt x y"
  by (cases x; cases y) (simp_all add: fgt_def)

lemma np_sum_fin: "list_all is_fin xs \<Longrightarrow> is_fin (np_sum xs)"
proof -
  have "list_all is_fin xs \<Longrightarrow> is_fin a \<Longrightarrow> is_fin (foldl fadd a xs)" for a
  proof (induction xs arbitrary: a)
    case Nil
    then show ?case by simp
  next
    case (Cons x xs)
    from Cons.prems have "is_fin (fadd a x)"
      by (cases a; cases x) (simp_all add: is_fin_def)
    then show ?case using Cons by simp
  qed
  then show "list_all is_fin xs \<Longrightarrow> is_fin (np_sum xs)" by (simp add: np_sum_def is_fin_def)
qed

lemma np_mean_fin:
  assumes "list_all is_fin xs"
  shows "np_mean xs = NaN \<or> is_fin (np_mean xs)"
proof (cases xs)
  case Nil
  then show ?thesis by (simp add: np_mean_def np_sum_def)
next
  case (Cons x ys)
  obtain s where s: "np_sum xs = Fin s"
    using np_sum_fin [OF assms] by (cases "np_sum xs") (simp_all add: is_fin_def)
  show ?thesis using Cons s by (simp add: np_mean_def is_fin_def)
qed

lemma nan_to_num_fmul:
  "x = NaN \<or> is_fin x \<Longrightarrow> nan_to_num (fmul (Fin k) x) = fmul (Fin k) (nan_to_num x)"
  by (cases x) (auto simp: is_fin_def)

lemma gated_loudness_scale:
  assumes k: "0 < k"
    and rows: "list_all (\<lambda>zi. length zi = nb) z"
    and fin: "list_all (list_all is_fin) z"
    and stable: "gate_stable nb z (10 * log 10 k)"
  shows "gated_loudness nb (map (map (fmul (Fin k))) z)
       = fadd (gated_loudness nb z) (Fin (10 * log 10 k))"
proof -
  let ?h = "fmul (Fin k)"
  let ?z = "map (map ?h) z"
  let ?d = "10 * log 10 k"
  have len: "length zi = nb" if "zi \<in> set z" for zi
    using rows that by (simp add: list_all_iff)
  have col: "map (\<lambda>zi. zi ! j) ?z = map ?h (map (\<lambda>zi. zi ! j) z)" if "j < nb" for j
    using that len by (simp add: o_def)
  have bl: "block_loudness ?z j = fadd (block_loudness z j) (Fin ?d)" if "j < nb" for j
    unfolding block_loudness_def col [OF that] weighted_sum_fmul [OF k] by (rule lufs_fmul [OF k])
  have st: "fge (fadd (block_loudness z j) (Fin ?d)) Gamma_a = fge (block_loudness z j) Gamma_a"
      "fgt (fadd (block_loudness z j) (Fin ?d)) Gamma_a = fgt (block_loudness z j) Gamma_a"
    if "j < nb" for j
    using stable that by (simp_all add: gate_stable_def list_all_iff)
  have ag: "absolute_gate nb ?z = absolute_gate nb z"
    unfolding absolute_gate_def by (rule filter_cong) (simp_all add: bl st)
  have gm: "gated_mean ?z J = map ?h (gated_mean z J)" if "set J \<subseteq> {..<nb}" for J
  proof -
    have "map (\<lambda>j. map ?h zi ! j) J = map ?h (map (\<lambda>j. zi ! j) J)" if "zi \<in> set z" for zi
      using len [OF that] \<open>set J \<subseteq> {..<nb}\<close> by (auto simp: o_def)
    then have "np_mean (map (\<lambda>j. map ?h zi ! j) J) = ?h (np_mean (map (\<lambda>j. zi ! j) J))"
      if "zi \<in> set z" for zi
      using that by (simp only: np_mean_fmul [OF k])
    then show ?thesis unfolding gated_mean_def map_map o_def by (intro map_cong refl)
  qed
  have sub1: "set (absolute_gate nb z) \<subseteq> {..<nb}" by (auto simp: absolute_gate_def)
  have sub2: "set (surviving_blocks nb z) \<subseteq> {..<nb}" by (auto simp: surviving_blocks_def)
  have rt: "relative_threshold nb ?z = fadd (relative_threshold nb z) (Fin ?d)"
    unfolding relative_threshold_def ag gm [OF sub1] weighted_sum_fmul [OF k] lufs_fmul [OF k]
    by (rule fsub_fadd_shift)
  have sb: "surviving_blocks nb ?z = surviving_blocks nb z"
    unfolding surviving_blocks_def rt by (rule filter_cong) (simp_all add: bl st fgt_shift)
  have mean_ok: "x = NaN \<or> is_fin x" if "x \<in> set (gated_mean z J)" "set J \<subseteq> {..<nb}" for x J
  proof -
    from that(1) obtain zi where zi: "zi \<in> set z" "x = np_mean (map (\<lambda>j. zi ! j) J)"
      by (auto simp: gated_mean_def)
    have "list_all is_fin zi" using fin zi(1) by (simp add: list_all_iff)
    then have "list_all is_fin (map (\<lambda>j. zi ! j) J)"
      using that(2) len [OF zi(1)] by (auto simp: list_all_iff)
    from np_mean_fin [OF this] show ?thesis using zi(2) by simp
  qed
  have nn: "map nan_to_num (map ?h (gated_mean z (surviving_blocks nb z)))
      = map ?h (map nan_to_num (gated_mean z (surviving_blocks nb z)))"
    using mean_ok [OF _ sub2] by (simp add: nan_to_num_fmul)
  show ?thesis
    unfolding gated_loudness_eq sb gm [OF sub2] nn weighted_sum_fmul [OF k]
    by (rule lufs_fmul [OF k])
qed

lemma shape_scale:
  "numChannels (scale g data) = numChannels data" "numSamples (scale g data) = numSamples data"
  by (cases data; simp add: numChannels_def numSamples_def scale_def)+

lemma measure_blocks_Meter:
  "measure_blocks (Meter r bs) n X =
     (if r = 0 \<or> bs * step = 0 then Inl ZeroDivisionError
      else if np_round ((real n / real_of_int r - bs) / (bs * step)) + 1 < 0 then Inl ValueError
      else Inr (gated_loudness (num_blocks r bs n) (block_energies r bs n X)))"
  by (simp add: measure_blocks_def Let_def Meter_sel num_blocks_def block_energies_def)

lemma integrated_loudness_Meter:
  "integrated_loudness (Meter r bs) data =
     (case valid_audio data r bs of
        Inl e \<Rightarrow> Inl e
      | Inr ok \<Rightarrow>
          if r = 0 \<or> bs * step = 0 then Inl ZeroDivisionError
          else measure_blocks (Meter r bs) (numSamples data) (k_weighting r data))"
proof (cases "data = []")
  case True
  then show ?thesis
    by (simp add: integrated_loudness_def Meter_sel apply_filters_Meter k_weighting_def
        measure_blocks_Meter split: sum.splits)
next
  case False
  then show ?thesis
    by (simp add: integrated_loudness_def Meter_sel apply_filters_Meter measure_blocks_Meter
        split: sum.splits)
qed

lemma integrated_loudness_scale:
  assumes ret: "integrated_loudness (Meter r bs) audio = Inr L"
    and fin: "list_all (list_all is_fin) (k_weighted_energies r bs audio)"
    and stable: "gate_stable (num_blocks r bs (numSamples audio)) (k_weighted_energies r bs audio) g"
  shows "integrated_loudness (Meter r bs) (scale (Fin (10 powr (g / 20))) audio)
       = Inr (fadd L (Fin g))"
proof -
  define k :: real where "k = 10 powr (g / 20)"
  define n where "n = numSamples audio"
  define z where "z = block_energies r bs n (k_weighting r audio)"
  have k: "0 < k" and kk: "0 < k * k" by (simp_all add: k_def)
  have "log 10 (k * k) = g / 10"
    using k by (simp add: log_mult) (simp add: k_def)
  then have d: "10 * log 10 (k * k) = g" by simp
  have va: "valid_audio (scale (Fin k) audio) r bs = valid_audio audio r bs"
    by (simp add: valid_audio_def shape_scale)
  have L: "valid_audio audio r bs = Inr ()" "\<not> (r = 0 \<or> bs * step = 0)"
      "\<not> np_round ((real n / real_of_int r - bs) / (bs * step)) + 1 < 0"
      "L = gated_loudness (num_blocks r bs n) z"
    using ret unfolding integrated_loudness_Meter measure_blocks_Meter n_def z_def
    by (auto split: sum.splits if_splits)
  have rows: "list_all (\<lambda>zi. length zi = num_blocks r bs n) z"
    by (simp add: z_def block_energies_def list_all_iff)
  have fin': "list_all (list_all is_fin) z"
    using fin by (simp add: k_weighted_energies_def z_def n_def)
  have stable': "gate_stable (num_blocks r bs n) z (10 * log 10 (k * k))"
    using stable unfolding d by (simp add: k_weighted_energies_def z_def n_def)
  have "integrated_loudness (Meter r bs) (scale (Fin k) audio)
      = Inr (gated_loudness (num_blocks r bs n) (map (map (fmul (Fin (k * k)))) z))"
    unfolding integrated_loudness_Meter measure_blocks_Meter va shape_scale
      k_weighting_scale [OF k] block_energies_scale [OF k]
    using L(1-3) by (simp add: n_def z_def)
  also have "\<dots> = Inr (fadd L (Fin g))"
    using gated_loudness_scale [OF kk rows fin' stable'] L(4) d by simp
  finally show ?thesis by (simp add: k_def)
qed

lemma normalize_peak_scale:
  assumes "0 < k" "current_peak audio = Fin M" "0 < M"
  shows "normalize_peak (scale (Fin k) audio) peak = normalize_peak audio peak"
proof -
  have ne: "concat audio \<noteq> []" by (rule current_peak_Fin_nonempty [OF assms(2)])
  then have ne': "concat (scale (Fin k) audio) \<noteq> []"
    by (simp only: concat_scale_Nil not_False_eq_True)
  have gp: "0 < 10 powr (peak / 20) / (k * M)" "0 < 10 powr (peak / 20) / M"
    using assms by simp_all
  have cp: "current_peak (scale (Fin k) audio) = Fin (k * M)"
    by (simp add: current_peak_scale [OF assms(1)] assms(2))
  have g1: "peak_gain (Fin (k * M)) peak = Fin (10 powr (peak / 20) / (k * M))"
    using assms by (simp add: peak_gain_def)
  have g2: "peak_gain (Fin M) peak = Fin (10 powr (peak / 20) / M)"
    using assms by (simp add: peak_gain_def)
  have "scale (Fin (10 powr (peak / 20) / (k * M))) (scale (Fin k) audio)
      = scale (Fin (10 powr (peak / 20) / (k * M) * k)) audio"
    by (rule scale_scale [OF gp(1) assms(1)])
  also have "10 powr (peak / 20) / (k * M) * k = 10 powr (peak / 20) / M"
    using assms by (simp add: field_simps)
  finally show ?thesis
    unfolding normalize_peak_eq cp assms(2) g1 g2 using ne ne'
    by (simp del: concat_eq_Nil_conv)
qed

lemma block_energies_impulse:
  "k_weighted_energies 48000 0.4 (impulse 19199 v) = [[Fin ((k_gain 48000 * v)\<^sup>2 / 19200)]]"
proof -
  have nb: "num_blocks 48000 0.4 (Suc 19199) = 1"
    by (simp add: num_blocks_def np_round_0)
  have u: "[0..<1] = [0::nat]" by simp
  have "block_energies 48000 0.4 (Suc 19199) (impulse 19199 w) = [[Fin (w\<^sup>2 / 19200)]]" for w
    unfolding block_energies_def nb impulse_def u
    by (simp only: list.map block_energy_impulse)
  then show ?thesis
    by (simp only: k_weighted_energies_def shape_impulse k_weighting_impulse)
qed

lemma quiet_click: "click_lufs (1 / 40) \<le> - 70.691"
proof -
  have k: "0 \<le> k_gain 48000" "k_gain 48000 \<le> 8 / 5" using k_gain_bounds by auto
  have "(k_gain 48000)\<^sup>2 \<le> (8 / 5)\<^sup>2" using k by (intro power_mono) auto
  then have "(k_gain 48000 * (1 / 40))\<^sup>2 / 19200 \<le> 1 / 10000000"
    by (simp add: power2_eq_square)
  moreover have "(10::real) powr (- 7) = 1 / 10000000" by (simp add: powr_minus_divide)
  ultimately have "(k_gain 48000 * (1 / 40))\<^sup>2 / 19200 \<le> 10 powr (- 7)" by simp
  from click_lufs_le [OF _ this] show ?thesis by simp
qed

lemma six_db_bound: "199 / 100 \<le> (10::real) powr (6.02 / 20)"
proof -
  have "199 / 100 \<le> (10::real) powr (real 3 / real 10)"
    by (rule ten_powr_ge) (simp_all add: power_divide)
  also have "\<dots> \<le> 10 powr (6.02 / 20)" by (subst powr_le_cancel_iff) auto
  finally show ?thesis .
qed

lemma loud_click: "- 69.691 \<le> click_lufs (10 powr (6.02 / 20) * (1 / 40))"
proof -
  define G :: real where "G = 10 powr (6.02 / 20)"
  define x where "x = k_gain 48000 * (G * (1 / 40))"
  have G: "199 / 100 \<le> G" unfolding G_def by (rule six_db_bound)
  have "71 / 50 * (199 / 100 * (1 / 40)) \<le> k_gain 48000 * (G * (1 / 40))"
    by (rule mult_mono [OF k_gain_bounds(1)]) (use G k_gain_bounds(1) in auto)
  then have x: "14129 / 200000 \<le> x" by (simp add: x_def)
  have "(14129 / 200000)\<^sup>2 \<le> x\<^sup>2" using x by (intro power_mono) auto
  then have lo: "63 / 500000000 \<le> x\<^sup>2 / 19200" by (simp add: power2_eq_square)
  have "(10::real) powr (- (69 / 10)) = 10 powr (- 7) * 10 powr (1 / 10)"
    by (simp flip: powr_add)
  also have "\<dots> = 10 powr (1 / 10) / 10000000" by (simp add: powr_minus_divide)
  also have "\<dots> \<le> 63 / 50 / 10000000"
    using ten_tenth_bounds(2) by (intro divide_right_mono) auto
  finally have "(10::real) powr (- (69 / 10)) \<le> x\<^sup>2 / 19200" using lo by simp
  from click_lufs_ge [of "- (69 / 10)" "G * (1 / 40)"] this
  have "- 0.691 + 10 * (- (69 / 10)) \<le> click_lufs (G * (1 / 40))" by (simp add: x_def)
  then show ?thesis by (simp add: G_def)
qed

text \<open>
  Claim C8.  A gain on the input and the measurement of \<^verbatim>\<open>loudness_norm\<close>.  Finite values
  are exact here, so the ranges keep every product far from overflow and underflow.

  Inside \<^verbatim>\<open>loudness_norm\<close>: for an array with a finite peak between \<open>2\<^sup>-\<^sup>6\<^sup>4\<close> and \<open>2\<^sup>6\<^sup>4\<close>, a
  gain \<open>k\<close> in the same range and a peak target within 200 dB of 0, the array scaled by
  \<open>k\<close> has the same peak-normalized array, hence the same measured loudness and the same
  result of the call.

  The raw measurement of the meter: when it returns \<open>L\<close> for the array, the block energies
  are finite and a gain of \<open>g\<close> decibels moves no block across the absolute threshold of
  -70, it returns \<open>L + g\<close> for the array with the gain applied.
\<close>

theorem gain_before_normalization:
  "(1 / 2 ^ 64 \<le> k \<and> k \<le> 2 ^ 64 \<and> current_peak audio = Fin M
      \<and> 1 / 2 ^ 64 \<le> M \<and> M \<le> 2 ^ 64 \<and> \<bar>peak\<bar> \<le> 200 \<longrightarrow>
    normalize_peak (scale (Fin k) audio) peak = normalize_peak audio peak
    \<and> measured_loudness (scale (Fin k) audio) r peak bs = measured_loudness audio r peak bs
    \<and> loudness_norm (scale (Fin k) audio) r peak loudness bs
        = loudness_norm audio r peak loudness bs)
   \<and> (\<bar>g\<bar> \<le> 200 \<and> peak_within audio (2 ^ 64)
      \<and> integrated_loudness (Meter r bs) audio = Inr L
      \<and> list_all (list_all is_fin) (k_weighted_energies r bs audio)
      \<and> gate_stable (num_blocks r bs (numSamples audio)) (k_weighted_energies r bs audio) g
      \<longrightarrow>
    integrated_loudness (Meter r bs) (scale (Fin (10 powr (g / 20))) audio)
      = Inr (fadd L (Fin g)))"
proof (intro conjI impI)
  assume a: "1 / 2 ^ 64 \<le> k \<and> k \<le> 2 ^ 64 \<and> current_peak audio = Fin M
      \<and> 1 / 2 ^ 64 \<le> M \<and> M \<le> 2 ^ 64 \<and> \<bar>peak\<bar> \<le> 200"
  have "(0::real) < 1 / 2 ^ 64" by simp
  then have k: "0 < k" and M: "0 < M" using a by linarith+
  have cp: "current_peak audio = Fin M" using a by simp
  show np: "normalize_peak (scale (Fin k) audio) peak = normalize_peak audio peak"
    by (rule normalize_peak_scale [OF k cp M])
  show "measured_loudness (scale (Fin k) audio) r peak bs = measured_loudness audio r peak bs"
    by (simp only: measured_loudness_def np)
  show "loudness_norm (scale (Fin k) audio) r peak loudness bs
        = loudness_norm audio r peak loudness bs"
    by (simp only: loudness_norm_def np)
next
  assume a: "\<bar>g\<bar> \<le> 200 \<and> peak_within audio (2 ^ 64)
      \<and> integrated_loudness (Meter r bs) audio = Inr L
      \<and> list_all (list_all is_fin) (k_weighted_energies r bs audio)
      \<and> gate_stable (num_blocks r bs (numSamples audio)) (k_weighted_energies r bs audio) g"
  then have 1: "integrated_loudness (Meter r bs) audio = Inr L"
    and 2: "list_all (list_all is_fin) (k_weighted_energies r bs audio)"
    and 3: "gate_stable (num_blocks r bs (numSamples audio)) (k_weighted_energies r bs audio) g"
    by blast+
  show "integrated_loudness (Meter r bs) (scale (Fin (10 powr (g / 20))) audio)
      = Inr (fadd L (Fin g))"
    by (rule integrated_loudness_scale [OF 1 2 3])
qed

theorem gain_before_normalization_witness:
  "1 / 2 ^ 64 \<le> (2::real) \<and> (2::real) \<le> 2 ^ 64 \<and> current_peak (impulse 19199 1) = Fin 1
   \<and> 1 / 2 ^ 64 \<le> (1::real) \<and> (1::real) \<le> 2 ^ 64 \<and> \<bar>- 1 :: real\<bar> \<le> 200
   \<and> \<bar>6 :: real\<bar> \<le> 200 \<and> peak_within (impulse 19199 1) (2 ^ 64)
   \<and> integrated_loudness (Meter 48000 0.4) (impulse 19199 1) = Inr (Fin (click_lufs 1))
   \<and> list_all (list_all is_fin) (k_weighted_energies 48000 0.4 (impulse 19199 1))
   \<and> gate_stable (num_blocks 48000 0.4 (numSamples (impulse 19199 1)))
        (k_weighted_energies 48000 0.4 (impulse 19199 1)) 6
   \<and> measured_loudness (scale (Fin 2) (impulse 19199 1)) 48000 (- 1) 0.4
        = measured_loudness (impulse 19199 1) 48000 (- 1) 0.4
   \<and> loudness_norm (scale (Fin 2) (impulse 19199 1)) 48000 (- 1) (- 23) 0.4
        = loudness_norm (impulse 19199 1) 48000 (- 1) (- 23) 0.4
   \<and> integrated_loudness (Meter 48000 0.4) (scale (Fin (10 powr (6 / 20))) (impulse 19199 1))
        = Inr (Fin (click_lufs 1 + 6))"
proof -
  let ?a = "impulse 19199 1"
  have e: "0 < (k_gain 48000 * 1)\<^sup>2 / 19200" using k_gain_bounds(1) by simp
  have h1: "1 / 2 ^ 64 \<le> (2::real) \<and> (2::real) \<le> 2 ^ 64 \<and> current_peak ?a = Fin 1
      \<and> 1 / 2 ^ 64 \<le> (1::real) \<and> (1::real) \<le> 2 ^ 64 \<and> \<bar>- 1 :: real\<bar> \<le> 200"
    by (simp add: current_peak_impulse)
  have m: "integrated_loudness (Meter 48000 0.4) ?a = Inr (Fin (click_lufs 1))"
    using measure_impulse [of 1] unit_click_lufs by (simp add: click_lufs_def)
  have pw: "peak_within ?a (2 ^ 64)"
    by (simp add: peak_within_def current_peak_impulse fle_def shape_impulse
        del: concat_eq_Nil_conv)
  have fin: "list_all (list_all is_fin) (k_weighted_energies 48000 0.4 ?a)"
    by (simp only: block_energies_impulse) (simp add: is_fin_def)
  have bl: "block_loudness [[Fin ((k_gain 48000)\<^sup>2 / 19200)]] 0 = Fin (click_lufs 1)"
    using e by (simp add: block_loudness_def weighted_sum_single lufs_Fin click_lufs_def)
  have nb: "num_blocks 48000 0.4 (Suc 19199) = 1"
    by (simp add: num_blocks_def np_round_0)
  have u: "[0..<1] = [0::nat]" by simp
  have gs: "gate_stable (num_blocks 48000 0.4 (numSamples ?a)) (k_weighted_energies 48000 0.4 ?a) 6"
    unfolding shape_impulse nb block_energies_impulse gate_stable_def u
    using unit_click_lufs by (simp add: bl fge_def fle_def fgt_def Gamma_a_def)
  have h2: "\<bar>6 :: real\<bar> \<le> 200 \<and> peak_within ?a (2 ^ 64)
      \<and> integrated_loudness (Meter 48000 0.4) ?a = Inr (Fin (click_lufs 1))
      \<and> list_all (list_all is_fin) (k_weighted_energies 48000 0.4 ?a)
      \<and> gate_stable (num_blocks 48000 0.4 (numSamples ?a)) (k_weighted_energies 48000 0.4 ?a) 6"
    using m pw fin gs by simp
  note T = gain_before_normalization
    [of 2 ?a 1 "- 1" 48000 "0.4" "- 23" 6 "Fin (click_lufs 1)"]
  from T h1 have A: "measured_loudness (scale (Fin 2) ?a) 48000 (- 1) 0.4
        = measured_loudness ?a 48000 (- 1) 0.4
      \<and> loudness_norm (scale (Fin 2) ?a) 48000 (- 1) (- 23) 0.4
        = loudness_norm ?a 48000 (- 1) (- 23) 0.4"
    by blast
  from T h2 have "integrated_loudness (Meter 48000 0.4) (scale (Fin (10 powr (6 / 20))) ?a)
        = Inr (fadd (Fin (click_lufs 1)) (Fin 6))"
    by blast
  then have C: "integrated_loudness (Meter 48000 0.4) (scale (Fin (10 powr (6 / 20))) ?a)
        = Inr (Fin (click_lufs 1 + 6))"
    by simp
  show ?thesis using h1 h2 A C by blast
qed

text \<open>
  Without the condition on the absolute threshold the raw measurement does not shift by
  the gain: a click of amplitude 1/40 ending 0.4 s of silence at 48 kHz has its only
  block below -70 and measures minus infinity; with a gain of 6.02 dB the block is above
  -70 and the measurement is finite.
\<close>

theorem raw_shift_fails_across_gate:
  "integrated_loudness (Meter 48000 0.4) (impulse 19199 (1 / 40)) = Inr NInf
   \<and> integrated_loudness (Meter 48000 0.4)
        (scale (Fin (10 powr (6.02 / 20))) (impulse 19199 (1 / 40)))
       = Inr (Fin (click_lufs (10 powr (6.02 / 20) * (1 / 40))))
   \<and> \<not> raw_shift_within (impulse 19199 (1 / 40)) 48000 0.4 6.02 0.05"
proof -
  define G :: real where "G = 10 powr (6.02 / 20)"
  have G: "G \<noteq> 0" by (simp add: G_def)
  have q: "\<not> - 70 < click_lufs (1 / 40)" using quiet_click by simp
  have l: "- 70 < click_lufs (G * (1 / 40))" using loud_click by (simp add: G_def)
  have 1: "integrated_loudness (Meter 48000 0.4) (impulse 19199 (1 / 40)) = Inr NInf"
    using measure_impulse [of "1 / 40"] q by (simp add: click_lufs_def)
  have "integrated_loudness (Meter 48000 0.4) (impulse 19199 (G * (1 / 40)))
      = Inr (Fin (click_lufs (G * (1 / 40))))"
    using measure_impulse [of "G * (1 / 40)"] l G by (simp add: click_lufs_def)
  then have 2: "integrated_loudness (Meter 48000 0.4) (scale (Fin G) (impulse 19199 (1 / 40)))
      = Inr (Fin (click_lufs (G * (1 / 40))))"
    by (simp only: scale_impulse)
  have 3: "\<not> raw_shift_within (impulse 19199 (1 / 40)) 48000 0.4 6.02 0.05"
    unfolding raw_shift_within_def 1 2 [unfolded G_def]
    by (simp add: fsub_def fle_def)
  show ?thesis using 1 2 3 unfolding G_def by blast
qed

end
